theory Spec2Isabelle
  imports Complex_Main "HOL-Library.Sublist"
begin

section \<open>Text fitting (the designation truncation of drawLabelToPDF)\<close>

text \<open>
  Every template truncates the designation with the same code:
  \<^verbatim>\<open>
  const designationWidth = pdf.getTextWidth(designation);
  if (designationWidth > maxDesignationWidth) {
    while (pdf.getTextWidth(designation + '...') > maxDesignationWidth && designation.length > 0) {
      designation = designation.slice(0, -1);
    }
    designation += '...';
  }
  \<close>
  The measurement \<open>pdf.getTextWidth\<close> belongs to the drawing backend, so it is a
  parameter \<open>getTextWidth\<close> of the model. Widths are only compared, so any linear order
  serves as the type of widths. A string is a list of characters and
  \<open>slice(0, -1)\<close> is \<open>butlast\<close>.
\<close>

function truncate_loop :: "(string \<Rightarrow> 'w::linorder) \<Rightarrow> 'w \<Rightarrow> string \<Rightarrow> string" where
  "truncate_loop getTextWidth maxDesignationWidth designation =
     (if getTextWidth (designation @ ''...'') > maxDesignationWidth \<and> length designation > 0
      then truncate_loop getTextWidth maxDesignationWidth (butlast designation)
      else designation)"
  by pat_completeness auto
termination
  by (relation "measure (\<lambda>(m, w, d). length d)") auto

declare truncate_loop.simps [simp del]

definition truncate_designation :: "(string \<Rightarrow> 'w::linorder) \<Rightarrow> 'w \<Rightarrow> string \<Rightarrow> string" where
  "truncate_designation getTextWidth maxDesignationWidth designation =
     (let designationWidth = getTextWidth designation in
      if designationWidth > maxDesignationWidth
      then truncate_loop getTextWidth maxDesignationWidth designation @ ''...''
      else designation)"

text \<open>
  The branded templates measure the truncated designation again to centre it
  (\<open>pdf.getTextWidth(designation)\<close> after the truncation); \<open>fit\<close> pairs the displayed
  string with that width.
\<close>

definition fit :: "(string \<Rightarrow> 'w::linorder) \<Rightarrow> 'w \<Rightarrow> string \<Rightarrow> string \<times> 'w" where
  "fit getTextWidth maxWidth text =
     (let designation = truncate_designation getTextWidth maxWidth text
      in (designation, getTextWidth designation))"

text \<open>
  The measurement of a drawing backend adds up the advances of the characters of the
  text, none of them negative: \<open>advance_width\<close> is such a measurement for the advances
  \<open>adv\<close>, and \<open>unit_width\<close> the one with every character one unit wide. Under such a
  measurement a text never gets narrower when it is extended.
\<close>

definition advance_width :: "(char \<Rightarrow> rat) \<Rightarrow> string \<Rightarrow> rat" where
  "advance_width adv s = sum_list (map adv s)"

definition half_advance :: "char \<Rightarrow> rat" where
  "half_advance c = 1 / 2"

definition unit_width :: "string \<Rightarrow> int" where
  "unit_width s = int (length s)"

definition extending_never_narrows :: "(string \<Rightarrow> 'w::linorder) \<Rightarrow> bool" where
  "extending_never_narrows getTextWidth \<longleftrightarrow> (\<forall>s t. getTextWidth s \<le> getTextWidth (s @ t))"

section \<open>Number formatting\<close>

text \<open>
  JavaScript numbers that hold prices and coordinates are modelled as rationals (every
  finite double is one), and the results of \<open>parseInt\<close> and of \<open>Math.floor\<close> as integers;
  \<open>NaN\<close> and the infinities are not represented as prices.

  \<open>digits\<close> is the decimal rendering of a natural number and \<open>int_toString\<close> that of an
  integer, every digit printed. JavaScript prints an integer-valued number this way only
  below \<open>2^53\<close>: from there on \<open>toString\<close> prints the shortest digits that read back
  as the same double, and from \<open>10^21\<close> on it uses exponent notation. That general
  rendering \<open>String(n)\<close> is a parameter \<open>ToString\<close> of the model, and
  \<open>Number_toString\<close> is \<open>(n).toString()\<close> for an integer-valued \<open>n\<close>: the digits below
  \<open>2^53\<close>, the parameter beyond.
\<close>

definition digit_char :: "nat \<Rightarrow> char" where
  "digit_char d = char_of (48 + d)"

fun digits :: "nat \<Rightarrow> string" where
  "digits n = (if n < 10 then [digit_char n] else digits (n div 10) @ [digit_char (n mod 10)])"

declare digits.simps [simp del]

definition int_toString :: "int \<Rightarrow> string" where
  "int_toString i = (if i < 0 then ''-'' @ digits (nat (- i)) else digits (nat i))"

definition Number_toString :: "(rat \<Rightarrow> string) \<Rightarrow> int \<Rightarrow> string" where
  "Number_toString ToString i =
     (if \<bar>i\<bar> < 2 ^ 53 then int_toString i else ToString (of_int i))"

text \<open>
  \<open>x.toFixed(2)\<close>. A negative \<open>x\<close> is formatted as \<open>-\<close> followed by the formatting
  of \<open>- x\<close>. From \<open>10^21\<close> on the result is \<open>String(x)\<close>. Below, with \<open>n\<close> the integer
  for which \<open>n / 100 - x\<close> is closest to zero (the larger one on a tie), it is the digits
  of \<open>n\<close> with a point before the last two: \<open>toFixed2\<close>.
\<close>

definition toFixed2 :: "rat \<Rightarrow> string" where
  "toFixed2 v =
     (let n = nat \<lfloor>\<bar>v\<bar> * 100 + 1 / 2\<rfloor>
      in (if v < 0 then ''-'' else []) @
         digits (n div 100) @ ''.'' @ [digit_char (n mod 100 div 10), digit_char (n mod 10)])"

definition Number_toFixed2 :: "(rat \<Rightarrow> string) \<Rightarrow> rat \<Rightarrow> string" where
  "Number_toFixed2 ToString v =
     (if \<bar>v\<bar> < 10 ^ 21 then toFixed2 v
      else (if v < 0 then ''-'' else []) @ ToString \<bar>v\<bar>)"

text \<open>\<open>x % 1\<close>: the remainder has the sign of \<open>x\<close>.\<close>

definition mod1 :: "rat \<Rightarrow> rat" where
  "mod1 v = (if v < 0 then v - of_int \<lceil>v\<rceil> else v - of_int \<lfloor>v\<rfloor>)"

text \<open>A rendering to run the formatting with: the digits of the integer part.\<close>

definition whole_digits :: "rat \<Rightarrow> string" where
  "whole_digits v = int_toString \<lfloor>v\<rfloor>"

section \<open>Price decomposition (the branded templates)\<close>

text \<open>
  Both branded templates draw the price in parts:
  \<^verbatim>\<open>
  const priceNumber = Math.floor(product.prix).toString();
  ...
  if (product.prix % 1 !== 0) {
    const decimal = (product.prix % 1).toFixed(2).substring(1);
    ...
    pdf.text(decimal, ...);
  }
  \<close>
  \<open>decompose\<close> returns the three values involved: the integer part, whether a
  decimal part is drawn, and the decimal text.
\<close>

definition decompose :: "(rat \<Rightarrow> string) \<Rightarrow> rat \<Rightarrow> string \<times> bool \<times> string" where
  "decompose ToString prix =
     (let priceNumber = Number_toString ToString \<lfloor>prix\<rfloor>;
          decimal = drop 1 (Number_toFixed2 ToString (mod1 prix))
      in (priceNumber, mod1 prix \<noteq> 0, decimal))"

definition integerPart :: "string \<times> bool \<times> string \<Rightarrow> string" where
  "integerPart r = fst r"

definition hasFraction :: "string \<times> bool \<times> string \<Rightarrow> bool" where
  "hasFraction r = fst (snd r)"

definition fractionPart :: "string \<times> bool \<times> string \<Rightarrow> string" where
  "fractionPart r = snd (snd r)"

section \<open>Products and column mappings (types/product.ts)\<close>

text \<open>
  \<^verbatim>\<open>
  export interface Product {
    codebar: string; qte: number; prix: number;
    designation: string; reference: string; image?: string;
  }
  export interface ColumnMapping {
    codebar: string; qte: string; prix: string; designation: string; reference: string;
  }
  \<close>
  Both interfaces use the same field names. The fields of a column mapping are
  written with the qualified names \<open>ColumnMapping.codebar\<close>, ...; the plain names
  \<open>codebar\<close>, \<open>qte\<close>, ... are the fields of a product. The quantity of a product
  comes from \<open>parseInt\<close> and is an integer; the price is a rational.
\<close>

record ColumnMapping =
  codebar :: string
  qte :: string
  prix :: string
  designation :: string
  reference :: string

record Product =
  codebar :: string
  qte :: int
  prix :: rat
  designation :: string
  reference :: string
  image :: "string option"

section \<open>The PDF document and its backend\<close>

text \<open>
  The jsPDF object is modelled by the calls made on it: every call that sets a drawing
  parameter or draws is appended to the page that is current. A new document has one
  empty page (which is why the generator adds a page only from the second page on), and
  \<open>addPage\<close> closes the current page and opens an empty one. The font set last is kept as
  well, because \<open>getTextWidth\<close> measures in it. The messages written to the console and
  the name under which the document is saved are carried in the same record.
\<close>

datatype draw_op =
    SetDrawColor nat nat nat
  | SetLineWidth rat
  | SetFillColor nat nat nat
  | SetTextColor nat nat nat
  | SetFontSize nat
  | SetFont string string
  | Rect rat rat rat rat "string option"
  | Text string rat rat
  | AddImage string string rat rat rat rat

record pdf =
  finished_pages :: "draw_op list list"
  current_page :: "draw_op list"
  fontSize :: nat
  fontName :: string
  fontStyle :: string
  console :: "string list"
  saved :: "string option"

definition new_jsPDF :: pdf where
  "new_jsPDF = \<lparr>finished_pages = [], current_page = [], fontSize = 16,
                 fontName = ''helvetica'', fontStyle = ''normal'', console = [], saved = None\<rparr>"

definition all_pages :: "pdf \<Rightarrow> draw_op list list" where
  "all_pages doc = finished_pages doc @ [current_page doc]"

text \<open>
  What the code takes from outside: the text measurement of the PDF library (by font
  name, style, size and text), the rendering \<open>String(n)\<close> of a number (used for the
  numbers that do not print digit by digit), the barcode generator (\<open>JsBarcode\<close> on a
  fresh canvas followed by \<open>toDataURL\<close>: the PNG data, or \<open>None\<close> when \<open>JsBarcode\<close>
  throws, as it does for an empty text and for a text that CODE128 cannot encode), and
  the conversion of a loaded image to JPEG data through a canvas (the canvas may give no
  2D context, and drawing or exporting may throw).
\<close>

datatype image = HTMLImageElement (img_src: string) (img_width: nat) (img_height: nat)

datatype canvas_result = NoContext | Thrown | DataURL string

record backend =
  getStringWidth :: "string \<Rightarrow> string \<Rightarrow> nat \<Rightarrow> string \<Rightarrow> rat"
  ToString :: "rat \<Rightarrow> string"
  JsBarcode :: "string \<Rightarrow> string option"
  toJPEG :: "image \<Rightarrow> nat \<Rightarrow> canvas_result"

definition emit :: "draw_op \<Rightarrow> pdf \<Rightarrow> pdf" where
  "emit op doc = doc\<lparr>current_page := current_page doc @ [op]\<rparr>"

definition pdf_setDrawColor :: "nat \<Rightarrow> nat \<Rightarrow> nat \<Rightarrow> pdf \<Rightarrow> pdf" where
  "pdf_setDrawColor r g b doc = emit (SetDrawColor r g b) doc"

definition pdf_setLineWidth :: "rat \<Rightarrow> pdf \<Rightarrow> pdf" where
  "pdf_setLineWidth w doc = emit (SetLineWidth w) doc"

definition pdf_setFillColor :: "nat \<Rightarrow> nat \<Rightarrow> nat \<Rightarrow> pdf \<Rightarrow> pdf" where
  "pdf_setFillColor r g b doc = emit (SetFillColor r g b) doc"

definition pdf_setTextColor :: "nat \<Rightarrow> nat \<Rightarrow> nat \<Rightarrow> pdf \<Rightarrow> pdf" where
  "pdf_setTextColor r g b doc = emit (SetTextColor r g b) doc"

definition pdf_setFontSize :: "nat \<Rightarrow> pdf \<Rightarrow> pdf" where
  "pdf_setFontSize n doc = emit (SetFontSize n) (doc\<lparr>fontSize := n\<rparr>)"

definition pdf_setFont :: "string \<Rightarrow> string \<Rightarrow> pdf \<Rightarrow> pdf" where
  "pdf_setFont name style doc = emit (SetFont name style) (doc\<lparr>fontName := name, fontStyle := style\<rparr>)"

definition pdf_rect :: "rat \<Rightarrow> rat \<Rightarrow> rat \<Rightarrow> rat \<Rightarrow> string option \<Rightarrow> pdf \<Rightarrow> pdf" where
  "pdf_rect x y w h style doc = emit (Rect x y w h style) doc"

definition pdf_text :: "string \<Rightarrow> rat \<Rightarrow> rat \<Rightarrow> pdf \<Rightarrow> pdf" where
  "pdf_text s x y doc = emit (Text s x y) doc"

definition pdf_addImage :: "string \<Rightarrow> string \<Rightarrow> rat \<Rightarrow> rat \<Rightarrow> rat \<Rightarrow> rat \<Rightarrow> pdf \<Rightarrow> pdf" where
  "pdf_addImage imageData format x y w h doc = emit (AddImage imageData format x y w h) doc"

definition pdf_getTextWidth :: "backend \<Rightarrow> pdf \<Rightarrow> string \<Rightarrow> rat" where
  "pdf_getTextWidth B doc s = getStringWidth B (fontName doc) (fontStyle doc) (fontSize doc) s"

definition pdf_addPage :: "pdf \<Rightarrow> pdf" where
  "pdf_addPage doc = doc\<lparr>finished_pages := finished_pages doc @ [current_page doc], current_page := []\<rparr>"

definition pdf_save :: "string \<Rightarrow> pdf \<Rightarrow> pdf" where
  "pdf_save name doc = doc\<lparr>saved := Some name\<rparr>"

definition console_error :: "string \<Rightarrow> pdf \<Rightarrow> pdf" where
  "console_error msg doc = doc\<lparr>console := console doc @ [msg]\<rparr>"

section \<open>The compact label (pdfGenerator, drawLabelToPDF)\<close>

definition LABELS_PER_ROW :: nat where "LABELS_PER_ROW = 3"
definition LABELS_PER_COLUMN :: nat where "LABELS_PER_COLUMN = 8"
definition LABELS_PER_PAGE :: nat where "LABELS_PER_PAGE = LABELS_PER_ROW * LABELS_PER_COLUMN"

definition PAGE_WIDTH :: rat where "PAGE_WIDTH = 210"
definition PAGE_HEIGHT :: rat where "PAGE_HEIGHT = 297"

definition LABEL_WIDTH :: rat where "LABEL_WIDTH = 70"
definition LABEL_HEIGHT :: rat where "LABEL_HEIGHT = 36"

definition MARGIN_X :: rat where
  "MARGIN_X = (PAGE_WIDTH - (of_nat LABELS_PER_ROW * LABEL_WIDTH)) / 2"
definition MARGIN_Y :: rat where
  "MARGIN_Y = (PAGE_HEIGHT - (of_nat LABELS_PER_COLUMN * LABEL_HEIGHT)) / 2"

text \<open>
  The euro sign lies outside the 8-bit characters of \<open>string\<close>; it is kept as the three
  bytes of its UTF-8 encoding. The \<open>e\<close> with acute accent of the quantity caption is the
  character 233.
\<close>

definition euro :: string where
  "euro = [CHR 0xE2, CHR 0x82, CHR 0xAC]"

definition drawPlaceholderImage :: "backend \<Rightarrow> pdf \<Rightarrow> rat \<Rightarrow> rat \<Rightarrow> rat \<Rightarrow> pdf" where
  "drawPlaceholderImage B doc x y size' =
     (let doc = pdf_setFillColor 243 244 246 doc;
          doc = pdf_rect x y size' size' (Some ''F'') doc;
          doc = pdf_setFontSize 6 doc;
          doc = pdf_setFont ''helvetica'' ''normal'' doc;
          doc = pdf_setTextColor 156 163 175 doc;
          text = ''No Image'';
          textWidth = pdf_getTextWidth B doc text
      in pdf_text text (x + (size' - textWidth) / 2) (y + size' / 2) doc)"

text \<open>
  The body of \<open>drawLabelToPDF\<close>, one definition for each of its commented blocks. The
  canvas work of the image block (scaling the picture into a square canvas and exporting
  it) is the backend's \<open>toJPEG\<close>; \<open>pdf.addImage\<close> is its last statement, so a block
  that throws has drawn nothing before the placeholder is drawn.
\<close>

definition draw_border :: "pdf \<Rightarrow> rat \<Rightarrow> rat \<Rightarrow> pdf" where
  "draw_border doc x y =
     (let doc = pdf_setDrawColor 229 231 235 doc;
          doc = pdf_setLineWidth (1 / 10) doc
      in pdf_rect x y LABEL_WIDTH LABEL_HEIGHT None doc)"

definition draw_product_image ::
  "backend \<Rightarrow> pdf \<Rightarrow> image option \<Rightarrow> rat \<Rightarrow> rat \<Rightarrow> nat \<Rightarrow> pdf" where
  "draw_product_image B doc productImage contentX contentY imageSize =
     (case productImage of
        Some img \<Rightarrow>
          (case toJPEG B img imageSize of
             DataURL imageData \<Rightarrow>
               pdf_addImage imageData ''JPEG'' contentX contentY (of_nat imageSize) (of_nat imageSize) doc
           | NoContext \<Rightarrow> doc
           | Thrown \<Rightarrow>
               (let doc = console_error ''Error adding product image to PDF:'' doc
                in drawPlaceholderImage B doc contentX contentY (of_nat imageSize)))
      | None \<Rightarrow> drawPlaceholderImage B doc contentX contentY (of_nat imageSize))"

definition draw_designation :: "backend \<Rightarrow> pdf \<Rightarrow> Product \<Rightarrow> rat \<Rightarrow> rat \<Rightarrow> rat \<Rightarrow> pdf" where
  "draw_designation B doc product textStartX contentY textWidth =
     (let doc = pdf_setFontSize 10 doc;
          doc = pdf_setFont ''helvetica'' ''bold'' doc;
          doc = pdf_setTextColor 17 24 39 doc;
          maxDesignationWidth = textWidth - 15;
          designation = truncate_designation (pdf_getTextWidth B doc) maxDesignationWidth
                          (designation product)
      in pdf_text designation textStartX (contentY + 4) doc)"

definition draw_reference :: "pdf \<Rightarrow> Product \<Rightarrow> rat \<Rightarrow> rat \<Rightarrow> pdf" where
  "draw_reference doc product textStartX contentY =
     (let doc = pdf_setFontSize 7 doc;
          doc = pdf_setFont ''helvetica'' ''normal'' doc;
          doc = pdf_setTextColor 107 114 128 doc
      in pdf_text (''Ref: '' @ reference product) textStartX (contentY + 8) doc)"

definition draw_price :: "backend \<Rightarrow> pdf \<Rightarrow> Product \<Rightarrow> rat \<Rightarrow> rat \<Rightarrow> rat \<Rightarrow> pdf" where
  "draw_price B doc product x contentY padding =
     (let doc = pdf_setFontSize 12 doc;
          doc = pdf_setFont ''helvetica'' ''bold'' doc;
          doc = pdf_setTextColor 220 38 38 doc;
          priceText = Number_toFixed2 (ToString B) (prix product) @ '' '' @ euro;
          priceWidth = pdf_getTextWidth B doc priceText
      in pdf_text priceText (x + LABEL_WIDTH - padding - priceWidth) (contentY + 4) doc)"

definition draw_quantity :: "backend \<Rightarrow> pdf \<Rightarrow> Product \<Rightarrow> rat \<Rightarrow> rat \<Rightarrow> rat \<Rightarrow> pdf" where
  "draw_quantity B doc product x contentY padding =
     (if qte product > 1 then
        (let doc = pdf_setFontSize 7 doc;
             doc = pdf_setFont ''helvetica'' ''normal'' doc;
             doc = pdf_setTextColor 107 114 128 doc;
             qtyText = ''Qt'' @ [CHR 0xE9] @ '': '' @ Number_toString (ToString B) (qte product);
             qtyWidth = pdf_getTextWidth B doc qtyText
         in pdf_text qtyText (x + LABEL_WIDTH - padding - qtyWidth) (contentY + 8) doc)
      else doc)"

definition draw_barcode ::
  "backend \<Rightarrow> pdf \<Rightarrow> Product \<Rightarrow> rat \<Rightarrow> rat \<Rightarrow> rat \<Rightarrow> rat \<Rightarrow> rat \<Rightarrow> pdf" where
  "draw_barcode B doc product x y contentX contentWidth padding =
     (case JsBarcode B (codebar product) of
        Some barcodeData \<Rightarrow>
          (let barcodeWidth = contentWidth - 4;
               barcodeHeight = 6;
               barcodeY = y + LABEL_HEIGHT - padding - barcodeHeight - 2;
               doc = pdf_addImage barcodeData ''PNG'' (contentX + 2) barcodeY barcodeWidth barcodeHeight doc;
               doc = pdf_setFontSize 6 doc;
               doc = pdf_setFont ''helvetica'' ''normal'' doc;
               doc = pdf_setTextColor 55 65 81 doc;
               codeWidth = pdf_getTextWidth B doc (codebar product)
           in pdf_text (codebar product) (x + (LABEL_WIDTH - codeWidth) / 2) (y + LABEL_HEIGHT - 1) doc)
      | None \<Rightarrow> console_error ''Error generating barcode for PDF:'' doc)"

definition drawLabelToPDF ::
  "backend \<Rightarrow> pdf \<Rightarrow> Product \<Rightarrow> rat \<Rightarrow> rat \<Rightarrow> (string \<rightharpoonup> image) \<Rightarrow> pdf" where
  "drawLabelToPDF B doc product x y imageCache =
     (let doc = draw_border doc x y;
          padding = 2;
          contentX = x + padding;
          contentY = y + padding;
          contentWidth = LABEL_WIDTH - (padding * 2);
          imageSize = 15;
          productImage = imageCache (reference product);
          doc = draw_product_image B doc productImage contentX contentY imageSize;
          textStartX = contentX + of_nat imageSize + 2;
          textWidth = contentWidth - of_nat imageSize - 2;
          doc = draw_designation B doc product textStartX contentY textWidth;
          doc = draw_reference doc product textStartX contentY;
          doc = draw_price B doc product x contentY padding;
          doc = draw_quantity B doc product x contentY padding
      in draw_barcode B doc product x y contentX contentWidth padding)"

section \<open>Page layout (pdfGenerator, generatePDF)\<close>

text \<open>
  \<^verbatim>\<open>
  const totalPages = Math.ceil(products.length / LABELS_PER_PAGE);
  for (let page = 0; page < totalPages; page++) {
    if (page > 0) { pdf.addPage(); }
    const startIndex = page * LABELS_PER_PAGE;
    const endIndex = Math.min(startIndex + LABELS_PER_PAGE, products.length);
    const pageProducts = products.slice(startIndex, endIndex);
    for (let i = 0; i < pageProducts.length; i++) {
      const product = pageProducts[i];
      const row = Math.floor(i / LABELS_PER_ROW);
      const col = i % LABELS_PER_ROW;
      const x = MARGIN_X + (col * LABEL_WIDTH);
      const y = MARGIN_Y + (row * LABEL_HEIGHT);
      await drawLabelToPDF(pdf, product, x, y, imageCache);
    }
  }
  pdf.save('price-labels.pdf');
  \<close>
  A placement is what one pass of the inner loop computes before it draws: the product,
  its row and column, and the origin of its cell. \<open>page_placements\<close> lists the passes of
  the inner loop for one page, \<open>layoutPages\<close> those of all pages, and \<open>generatePDF\<close>
  draws them in this order.
\<close>

record 'p placement =
  pl_product :: 'p
  pl_row :: nat
  pl_col :: nat
  pl_x :: rat
  pl_y :: rat

text \<open>\<open>xs.slice(start, end)\<close> for indices that are not negative.\<close>

definition slice :: "'a list \<Rightarrow> nat \<Rightarrow> nat \<Rightarrow> 'a list" where
  "slice xs start end' = take (end' - start) (drop start xs)"

definition totalPages :: "'p list \<Rightarrow> nat" where
  "totalPages products = nat \<lceil>(of_nat (length products) :: rat) / of_nat LABELS_PER_PAGE\<rceil>"

definition page_placements :: "'p list \<Rightarrow> nat \<Rightarrow> 'p placement list" where
  "page_placements products page =
     (let startIndex = page * LABELS_PER_PAGE;
          endIndex = min (startIndex + LABELS_PER_PAGE) (length products);
          pageProducts = slice products startIndex endIndex
      in map (\<lambda>i.
            let product = pageProducts ! i;
                row = i div LABELS_PER_ROW;
                col = i mod LABELS_PER_ROW;
                x = MARGIN_X + (of_nat col * LABEL_WIDTH);
                y = MARGIN_Y + (of_nat row * LABEL_HEIGHT)
            in \<lparr>pl_product = product, pl_row = row, pl_col = col, pl_x = x, pl_y = y\<rparr>)
          [0..<length pageProducts])"

definition layoutPages :: "'p list \<Rightarrow> 'p placement list list" where
  "layoutPages products = map (page_placements products) [0..<totalPages products]"

definition generatePDF :: "backend \<Rightarrow> Product list \<Rightarrow> (string \<rightharpoonup> image) \<Rightarrow> pdf" where
  "generatePDF B products imageCache =
     (let doc = new_jsPDF;
          doc = fold (\<lambda>page doc.
                  let doc = (if page > 0 then pdf_addPage doc else doc)
                  in fold (\<lambda>pl doc. drawLabelToPDF B doc (pl_product pl) (pl_x pl) (pl_y pl) imageCache)
                       (page_placements products page) doc)
                [0..<totalPages products] doc
      in pdf_save ''price-labels.pdf'' doc)"

text \<open>The cells of the page grid, and the (row, column) pairs of the placements of a page.\<close>

definition grid_cells :: "(nat \<times> nat) set" where
  "grid_cells = {0..<LABELS_PER_COLUMN} \<times> {0..<LABELS_PER_ROW}"

definition cells_of :: "'p placement list \<Rightarrow> (nat \<times> nat) list" where
  "cells_of pg = map (\<lambda>pl. (pl_row pl, pl_col pl)) pg"

text \<open>
  The calls a function makes on the document when it starts from a new one; the blocks of
  \<open>drawLabelToPDF\<close> set the font before they measure, so they add the same calls to every
  document.
\<close>

definition emitted :: "(pdf \<Rightarrow> pdf) \<Rightarrow> draw_op list" where
  "emitted f = current_page (f new_jsPDF)"

definition label_ops ::
  "backend \<Rightarrow> (string \<rightharpoonup> image) \<Rightarrow> Product placement \<Rightarrow> draw_op list" where
  "label_ops B imageCache pl =
     emitted (\<lambda>doc. drawLabelToPDF B doc (pl_product pl) (pl_x pl) (pl_y pl) imageCache)"

section \<open>The calls of a compact label, block by block\<close>

text \<open>
  The calls that each block of the compact label is expected to make, written out with
  the coordinates relative to the origin \<open>(x, y)\<close> of the cell: the border, the image or
  its placeholder, the designation, the reference, the price, the quantity caption
  (only for a quantity above 1), and the barcode symbol with its caption (only when the
  generator delivers a symbol). They are compared with \<open>drawLabelToPDF\<close> below.
\<close>

definition placeholder_ops :: "backend \<Rightarrow> rat \<Rightarrow> rat \<Rightarrow> rat \<Rightarrow> draw_op list" where
  "placeholder_ops B x y size' =
     [SetFillColor 243 244 246, Rect x y size' size' (Some ''F''), SetFontSize 6,
      SetFont ''helvetica'' ''normal'', SetTextColor 156 163 175,
      Text ''No Image''
        (x + (size' - getStringWidth B ''helvetica'' ''normal'' 6 ''No Image'') / 2) (y + size' / 2)]"

definition border_ops :: "rat \<Rightarrow> rat \<Rightarrow> draw_op list" where
  "border_ops x y = [SetDrawColor 229 231 235, SetLineWidth (1 / 10), Rect x y 70 36 None]"

definition image_ops :: "backend \<Rightarrow> image option \<Rightarrow> rat \<Rightarrow> rat \<Rightarrow> draw_op list" where
  "image_ops B productImage x y =
     (case productImage of
        None \<Rightarrow> placeholder_ops B (x + 2) (y + 2) 15
      | Some img \<Rightarrow>
          (case toJPEG B img 15 of
             DataURL imageData \<Rightarrow> [AddImage imageData ''JPEG'' (x + 2) (y + 2) 15 15]
           | NoContext \<Rightarrow> []
           | Thrown \<Rightarrow> placeholder_ops B (x + 2) (y + 2) 15))"

definition designation_ops :: "backend \<Rightarrow> Product \<Rightarrow> rat \<Rightarrow> rat \<Rightarrow> draw_op list" where
  "designation_ops B product x y =
     [SetFontSize 10, SetFont ''helvetica'' ''bold'', SetTextColor 17 24 39,
      Text (truncate_designation (getStringWidth B ''helvetica'' ''bold'' 10) 34 (designation product))
        (x + 19) (y + 6)]"

definition reference_ops :: "Product \<Rightarrow> rat \<Rightarrow> rat \<Rightarrow> draw_op list" where
  "reference_ops product x y =
     [SetFontSize 7, SetFont ''helvetica'' ''normal'', SetTextColor 107 114 128,
      Text (''Ref: '' @ reference product) (x + 19) (y + 10)]"

definition price_ops :: "backend \<Rightarrow> Product \<Rightarrow> rat \<Rightarrow> rat \<Rightarrow> draw_op list" where
  "price_ops B product x y =
     [SetFontSize 12, SetFont ''helvetica'' ''bold'', SetTextColor 220 38 38,
      Text (Number_toFixed2 (ToString B) (prix product) @ '' '' @ euro)
        (x + 68 - getStringWidth B ''helvetica'' ''bold'' 12
                    (Number_toFixed2 (ToString B) (prix product) @ '' '' @ euro))
        (y + 6)]"

definition quantity_ops :: "backend \<Rightarrow> Product \<Rightarrow> rat \<Rightarrow> rat \<Rightarrow> draw_op list" where
  "quantity_ops B product x y =
     (if qte product > 1 then
        [SetFontSize 7, SetFont ''helvetica'' ''normal'', SetTextColor 107 114 128,
         Text (''Qt'' @ [CHR 0xE9] @ '': '' @ Number_toString (ToString B) (qte product))
           (x + 68 - getStringWidth B ''helvetica'' ''normal'' 7
                       (''Qt'' @ [CHR 0xE9] @ '': '' @ Number_toString (ToString B) (qte product)))
           (y + 10)]
      else [])"

definition content_ops ::
  "backend \<Rightarrow> (string \<rightharpoonup> image) \<Rightarrow> Product \<Rightarrow> rat \<Rightarrow> rat \<Rightarrow> draw_op list" where
  "content_ops B imageCache product x y =
     border_ops x y @ image_ops B (imageCache (reference product)) x y @
     designation_ops B product x y @ reference_ops product x y @
     price_ops B product x y @ quantity_ops B product x y"

definition barcode_ops :: "backend \<Rightarrow> Product \<Rightarrow> rat \<Rightarrow> rat \<Rightarrow> draw_op list" where
  "barcode_ops B product x y =
     (case JsBarcode B (codebar product) of
        Some barcodeData \<Rightarrow>
          [AddImage barcodeData ''PNG'' (x + 4) (y + 26) 62 6, SetFontSize 6,
           SetFont ''helvetica'' ''normal'', SetTextColor 55 65 81,
           Text (codebar product)
             (x + (70 - getStringWidth B ''helvetica'' ''normal'' 6 (codebar product)) / 2) (y + 35)]
      | None \<Rightarrow> [])"

text \<open>
  A function on documents that appends a fixed list of calls to the current page, whatever
  the document, and leaves the finished pages and the saved name alone.
\<close>

definition appends :: "(pdf \<Rightarrow> pdf) \<Rightarrow> draw_op list \<Rightarrow> bool" where
  "appends f ops \<longleftrightarrow>
     (\<forall>doc. current_page (f doc) = current_page doc @ ops \<and>
            finished_pages (f doc) = finished_pages doc \<and> saved (f doc) = saved doc)"

text \<open>
  One pass of the outer loop of \<open>generatePDF\<close>, and the calls expected on page \<open>k\<close>: those
  of its labels, one label after the other.
\<close>

definition draw_page :: "backend \<Rightarrow> (string \<rightharpoonup> image) \<Rightarrow> Product list \<Rightarrow> nat \<Rightarrow> pdf \<Rightarrow> pdf" where
  "draw_page B imageCache products =
     (\<lambda>page doc.
        let doc = (if page > 0 then pdf_addPage doc else doc)
        in fold (\<lambda>pl doc. drawLabelToPDF B doc (pl_product pl) (pl_x pl) (pl_y pl) imageCache)
             (page_placements products page) doc)"

definition page_ops :: "backend \<Rightarrow> (string \<rightharpoonup> image) \<Rightarrow> Product list \<Rightarrow> nat \<Rightarrow> draw_op list" where
  "page_ops B imageCache products k =
     concat (map (label_ops B imageCache) (page_placements products k))"

definition no_images :: "string \<rightharpoonup> image" where
  "no_images = Map.empty"

text \<open>
  Backends and products to run the generator on. The barcode generator of \<open>demo_backend\<close>
  throws for the texts that the automatic mode of CODE128 refuses: the empty text and
  every text with a character outside the codes 0 to 127 and 200 to 211.
  \<open>no_context_backend\<close> differs in its canvas, which gives no 2D context.
\<close>

definition code128_refuses :: "string \<Rightarrow> bool" where
  "code128_refuses s \<longleftrightarrow>
     s = [] \<or> list_ex (\<lambda>c. (127 :: nat) < of_char c \<and> \<not> (200 \<le> (of_char c :: nat) \<and> (of_char c :: nat) \<le> 211)) s"

definition demo_backend :: backend where
  "demo_backend =
     \<lparr>getStringWidth = (\<lambda>name style size' s. of_nat (length s)),
      ToString = whole_digits,
      JsBarcode = (\<lambda>s. if code128_refuses s then None else Some (''png:'' @ s)),
      toJPEG = (\<lambda>img size'. DataURL (''jpeg:'' @ img_src img))\<rparr>"

definition no_context_backend :: backend where
  "no_context_backend = demo_backend\<lparr>toJPEG := (\<lambda>img size'. NoContext)\<rparr>"

definition demo_product :: "string \<Rightarrow> Product" where
  "demo_product code =
     \<lparr>codebar = code, qte = 2, prix = 25 / 2, designation = ''Tea'', reference = ''R1'',
      image = None\<rparr>"

definition single_product :: Product where
  "single_product =
     \<lparr>codebar = ''caf'' @ [CHR 0xE9], qte = 1, prix = 25 / 2, designation = ''Tea'',
      reference = ''R1'', image = None\<rparr>"

definition one_image :: "string \<rightharpoonup> image" where
  "one_image = [''R1'' \<mapsto> HTMLImageElement ''blob:r1'' 40 30]"

definition three_products :: "Product list" where
  "three_products =
     [\<lparr>codebar = ''111'', qte = 1, prix = 1, designation = ''Ink'', reference = ''R1'', image = None\<rparr>,
      \<lparr>codebar = ''222'', qte = 1, prix = 2, designation = ''Pen'', reference = ''R2'', image = None\<rparr>,
      \<lparr>codebar = ''333'', qte = 1, prix = 3, designation = ''Cap'', reference = ''R3'', image = None\<rparr>]"

section \<open>Mapping spreadsheet rows to products (excelParser, mapDataToProducts)\<close>

text \<open>
  A sheet is an array of rows and a row an array of cells; a cell is a string, a number,
  a boolean, \<open>null\<close> or \<open>undefined\<close> (also what reading beyond the end of a row gives).
\<close>

datatype cell = CUndefined | CNull | CStr string | CNum rat | CBool bool

text \<open>
  Two built-in conversions are parameters of the model: the rendering of a number as a
  string (\<open>String(n)\<close>) and \<open>parseFloat\<close>, whose result is \<open>None\<close> for \<open>NaN\<close>.
\<close>

record builtins =
  numberToString :: "rat \<Rightarrow> string"
  parseFloat :: "string \<Rightarrow> rat option"

definition truthy :: "cell \<Rightarrow> bool" where
  "truthy c = (case c of
      CUndefined \<Rightarrow> False
    | CNull \<Rightarrow> False
    | CStr s \<Rightarrow> s \<noteq> []
    | CNum v \<Rightarrow> v \<noteq> 0
    | CBool b \<Rightarrow> b)"

text \<open>\<open>a || b\<close> on cells, and \<open>String(c)\<close>.\<close>

definition js_or :: "cell \<Rightarrow> cell \<Rightarrow> cell" where
  "js_or a b = (if truthy a then a else b)"

definition String' :: "builtins \<Rightarrow> cell \<Rightarrow> string" where
  "String' J c = (case c of
      CUndefined \<Rightarrow> ''undefined''
    | CNull \<Rightarrow> ''null''
    | CStr s \<Rightarrow> s
    | CNum v \<Rightarrow> numberToString J v
    | CBool b \<Rightarrow> (if b then ''true'' else ''false''))"

text \<open>
  White space, as far as it lies in the 8-bit characters: tab, line feed, vertical tab,
  form feed, carriage return, space and the no-break space.
\<close>

definition isWhiteSpace :: "char \<Rightarrow> bool" where
  "isWhiteSpace c \<longleftrightarrow> of_char c \<in> {9, 10, 11, 12, 13, 32, 160 :: nat}"

definition trim :: "string \<Rightarrow> string" where
  "trim s = rev (dropWhile isWhiteSpace (rev (dropWhile isWhiteSpace s)))"

text \<open>
  \<open>parseInt(s)\<close> without a radix: leading white space is skipped, a sign is read, a
  prefix \<open>0x\<close> or \<open>0X\<close> selects radix 16 and otherwise the radix is 10, and the
  longest run of digits of that radix is the value; without any digit the result is
  \<open>NaN\<close>, here \<open>None\<close>. Whatever follows the digits is ignored.
\<close>

definition digit_value :: "char \<Rightarrow> nat" where
  "digit_value c =
     (let n = of_char c in
      if 48 \<le> n \<and> n \<le> 57 then n - 48
      else if 97 \<le> n \<and> n \<le> 122 then n - 87
      else if 65 \<le> n \<and> n \<le> 90 then n - 55
      else 36)"

definition digits_value :: "nat \<Rightarrow> string \<Rightarrow> nat" where
  "digits_value R Z = foldl (\<lambda>acc c. acc * R + digit_value c) 0 Z"

definition parseInt :: "string \<Rightarrow> int option" where
  "parseInt inputString =
     (let S = dropWhile isWhiteSpace inputString;
          sign = (if take 1 S = ''-'' then - 1 else 1);
          S = (if take 1 S = ''+'' \<or> take 1 S = ''-'' then drop 1 S else S);
          stripPrefix = (take 2 S = ''0x'' \<or> take 2 S = ''0X'');
          R = (if stripPrefix then 16 else 10);
          S = (if stripPrefix then drop 2 S else S);
          Z = takeWhile (\<lambda>c. digit_value c < R) S
      in if Z = [] then None else Some (sign * int (digits_value R Z)))"

text \<open>\<open>xs.indexOf(v)\<close> (strict equality), \<open>row[i]\<close> and \<open>xs.join(sep)\<close> on strings.\<close>

fun indexOf :: "'a list \<Rightarrow> 'a \<Rightarrow> int" where
  "indexOf [] v = - 1"
| "indexOf (x # xs) v =
     (if x = v then 0 else (let i = indexOf xs v in if i = - 1 then - 1 else i + 1))"

definition row_at :: "cell list \<Rightarrow> int \<Rightarrow> cell" where
  "row_at row i = (if 0 \<le> i \<and> nat i < length row then row ! nat i else CUndefined)"

fun join :: "string \<Rightarrow> string list \<Rightarrow> string" where
  "join sep [] = []"
| "join sep [x] = x"
| "join sep (x # y # ys) = x @ sep @ join sep (y # ys)"

text \<open>
  The object \<open>indices\<close> of the source has the field names of a column mapping once
  more; here its fields are \<open>i_codebar\<close>, ..., and \<open>entries\<close> is
  \<open>Object.entries(indices)\<close>, the fields by name in the order in which the object
  literal lists them. \<open>mapping_get\<close> is \<open>mapping[key as keyof ColumnMapping]\<close>.
\<close>

record indices =
  i_codebar :: int
  i_qte :: int
  i_prix :: int
  i_designation :: int
  i_reference :: int

definition entries :: "indices \<Rightarrow> (string \<times> int) list" where
  "entries ix =
     [(''codebar'', i_codebar ix), (''qte'', i_qte ix), (''prix'', i_prix ix),
      (''designation'', i_designation ix), (''reference'', i_reference ix)]"

definition mapping_get :: "ColumnMapping \<Rightarrow> string \<Rightarrow> string" where
  "mapping_get mapping key =
     (if key = ''codebar'' then ColumnMapping.codebar mapping
      else if key = ''qte'' then ColumnMapping.qte mapping
      else if key = ''prix'' then ColumnMapping.prix mapping
      else if key = ''designation'' then ColumnMapping.designation mapping
      else ColumnMapping.reference mapping)"

definition find_indices :: "cell list \<Rightarrow> ColumnMapping \<Rightarrow> indices" where
  "find_indices headers mapping =
     \<lparr>i_codebar = indexOf headers (CStr (ColumnMapping.codebar mapping)),
      i_qte = indexOf headers (CStr (ColumnMapping.qte mapping)),
      i_prix = indexOf headers (CStr (ColumnMapping.prix mapping)),
      i_designation = indexOf headers (CStr (ColumnMapping.designation mapping)),
      i_reference = indexOf headers (CStr (ColumnMapping.reference mapping))\<rparr>"

text \<open>
  The callback of \<open>map\<close>: the product of a row, or \<open>None\<close> for \<open>null\<close> when one of
  reference, barcode and designation is empty. (Nothing in the callback throws; the
  warning written to the console for a skipped row is not part of the result.)
\<close>

definition row_to_product ::
  "builtins \<Rightarrow> indices \<Rightarrow> (string \<rightharpoonup> string) \<Rightarrow> cell list \<Rightarrow> Product option" where
  "row_to_product J ix imageFiles row =
     (let reference = trim (String' J (js_or (row_at row (i_reference ix)) (CStr [])));
          codebar = trim (String' J (js_or (row_at row (i_codebar ix)) (CStr [])));
          designation = trim (String' J (js_or (row_at row (i_designation ix)) (CStr [])));
          qte = (case parseInt (String' J (js_or (row_at row (i_qte ix)) (CStr ''1''))) of
                   None \<Rightarrow> 1
                 | Some n \<Rightarrow> if n = 0 then 1 else n);
          prix = (case parseFloat J (String' J (js_or (row_at row (i_prix ix)) (CStr ''0''))) of
                    None \<Rightarrow> 0
                  | Some v \<Rightarrow> if v = 0 then 0 else v)
      in if reference = [] \<or> codebar = [] \<or> designation = [] then None
         else Some \<lparr>codebar = codebar, qte = qte, prix = prix, designation = designation,
                     reference = reference, image = imageFiles reference\<rparr>)"

text \<open>The predicate of the first \<open>filter\<close>: the row has a cell that is not empty.\<close>

definition row_has_data :: "cell list \<Rightarrow> bool" where
  "row_has_data row \<longleftrightarrow>
     length row > 0 \<and> list_ex (\<lambda>cell. cell \<noteq> CNull \<and> cell \<noteq> CUndefined \<and> cell \<noteq> CStr []) row"

text \<open>
  \<open>mapDataToProducts\<close>: the products, or (\<open>Inl\<close>) the message of the error thrown for
  missing columns.
\<close>

definition mapDataToProducts ::
  "builtins \<Rightarrow> cell list list \<Rightarrow> ColumnMapping \<Rightarrow> (string \<rightharpoonup> string) \<Rightarrow> string + Product list" where
  "mapDataToProducts J data mapping imageFiles =
     (if length data < 2 then Inr []
      else
        (let headers = hd data;
             dataRows = drop 1 data;
             ix = find_indices headers mapping;
             missingColumns =
               map (\<lambda>(key, index). mapping_get mapping key)
                 (filter (\<lambda>(key, index). index = - 1) (entries ix))
         in if length missingColumns > 0
            then Inl (''Missing columns: '' @ join '', '' missingColumns)
            else Inr (List.map_filter (row_to_product J ix imageFiles)
                        (filter row_has_data dataRows))))"

text \<open>
  The mapped columns that the headers do not contain, in the order codebar, qte, prix,
  designation, reference.
\<close>

definition mapped_columns :: "ColumnMapping \<Rightarrow> string list" where
  "mapped_columns mapping =
     [ColumnMapping.codebar mapping, ColumnMapping.qte mapping, ColumnMapping.prix mapping,
      ColumnMapping.designation mapping, ColumnMapping.reference mapping]"

definition missing_columns :: "cell list \<Rightarrow> ColumnMapping \<Rightarrow> string list" where
  "missing_columns headers mapping =
     filter (\<lambda>column. CStr column \<notin> set headers) (mapped_columns mapping)"

text \<open>Inputs to run the mapping on. The conversions of \<open>demo_builtins\<close> are right on integers.\<close>

definition demo_builtins :: builtins where
  "demo_builtins =
     \<lparr>numberToString = (\<lambda>v. int_toString \<lfloor>v\<rfloor>),
      parseFloat = (\<lambda>s. map_option of_int (parseInt s))\<rparr>"

definition mapping_A_to_E :: ColumnMapping where
  "mapping_A_to_E =
     \<lparr>ColumnMapping.codebar = ''A'', ColumnMapping.qte = ''B'', ColumnMapping.prix = ''C'',
      ColumnMapping.designation = ''D'', ColumnMapping.reference = ''E''\<rparr>"

definition no_image_files :: "string \<rightharpoonup> string" where
  "no_image_files = Map.empty"

definition sheet_negative_quantity :: "cell list list" where
  "sheet_negative_quantity =
     [[CStr ''A'', CStr ''B'', CStr ''C'', CStr ''D'', CStr ''E''],
      [CStr ''4006381333931'', CStr ''-5'', CNum 3, CStr ''Pen'', CStr ''R7'']]"

definition sheet_no_quantity :: "cell list list" where
  "sheet_no_quantity =
     [[CStr ''A'', CStr ''B'', CStr ''C'', CStr ''D'', CStr ''E''],
      [CStr ''4006381333931'', CNull, CNum 3, CStr ''Pen'', CStr ''R7'']]"

section \<open>Proofs: text fitting\<close>

lemma truncate_loop_prefix:
  "prefix (truncate_loop m w d) d"
proof (induction m w d rule: truncate_loop.induct)
  case (1 m w d)
  show ?case
  proof (cases "m (d @ ''...'') > w \<and> length d > 0")
    case True
    then have "prefix (truncate_loop m w (butlast d)) (butlast d)"
      using "1.IH" by simp
    moreover have "prefix (butlast d) d"
      by (simp add: prefixeq_butlast)
    ultimately have "prefix (truncate_loop m w (butlast d)) d"
      by (rule prefix_order.trans)
    with True show ?thesis
      by (subst truncate_loop.simps) simp
  next
    case False
    then show ?thesis
      by (subst truncate_loop.simps) auto
  qed
qed

lemma truncate_loop_stops:
  "truncate_loop m w d = [] \<or> m (truncate_loop m w d @ ''...'') \<le> w"
proof (induction m w d rule: truncate_loop.induct)
  case (1 m w d)
  show ?case
  proof (cases "m (d @ ''...'') > w \<and> length d > 0")
    case True
    with "1.IH" show ?thesis
      by (subst (1 2) truncate_loop.simps) simp
  next
    case False
    then show ?thesis
      by (subst (1 2) truncate_loop.simps) auto
  qed
qed

lemma truncate_loop_longest:
  "prefix q d \<Longrightarrow> m (q @ ''...'') \<le> w \<Longrightarrow> length q \<le> length (truncate_loop m w d)"
proof (induction m w d rule: truncate_loop.induct)
  case (1 m w d)
  show ?case
  proof (cases "m (d @ ''...'') > w \<and> length d > 0")
    case True
    then have "q \<noteq> d"
      using "1.prems"(2) by auto
    with "1.prems"(1) have "strict_prefix q d"
      by (simp add: strict_prefix_def)
    then have "prefix q (butlast d)"
      by (metis True append_butlast_last_id length_greater_0_conv prefix_snoc strict_prefix_def)
    then have "length q \<le> length (truncate_loop m w (butlast d))"
      using "1.IH" True "1.prems"(2) by simp
    with True show ?thesis
      by (subst truncate_loop.simps) simp
  next
    case False
    then have "truncate_loop m w d = d"
      by (subst truncate_loop.simps) auto
    with "1.prems"(1) show ?thesis
      by (simp add: prefix_length_le)
  qed
qed

lemma truncate_designation_fits:
  "getTextWidth s \<le> maxWidth \<Longrightarrow> truncate_designation getTextWidth maxWidth s = s"
  by (auto simp: truncate_designation_def Let_def)

lemma truncate_designation_wide:
  "\<not> getTextWidth s \<le> maxWidth \<Longrightarrow>
   truncate_designation getTextWidth maxWidth s = truncate_loop getTextWidth maxWidth s @ ''...''"
  by (auto simp: truncate_designation_def Let_def)

lemma truncate_loop_unit_abcdef: "truncate_loop unit_width 5 ''abcdef'' = ''ab''"
  by (simp add: truncate_loop.simps unit_width_def)

lemma truncate_loop_ellipsis:
  fixes m :: "string \<Rightarrow> 'w::linorder"
  assumes mono: "extending_never_narrows m" and wide: "\<not> m ''...'' \<le> w"
  shows "truncate_loop m w ''...'' = []"
proof -
  have ge: "m ''...'' \<le> m (''...'' @ t)" for t
    using mono unfolding extending_never_narrows_def by blast
  have "\<not> m (''...'' @ t) \<le> w" for t
    using ge [of t] wide by auto
  then have "w < m (''...'' @ t)" for t
    by (simp add: not_le)
  from this [of "''...''"] this [of "''..''"] this [of "''.''"]
  show ?thesis
    by (simp add: truncate_loop.simps)
qed

lemma advance_width_append: "advance_width adv (s @ t) = advance_width adv s + advance_width adv t"
  by (simp add: advance_width_def)

lemma advance_width_nonneg: "(\<forall>c. 0 \<le> adv c) \<Longrightarrow> 0 \<le> advance_width adv t"
  by (induction t) (simp_all add: advance_width_def)

lemma advance_width_extending:
  assumes "\<forall>c. 0 \<le> adv c"
  shows "extending_never_narrows (advance_width adv)"
  unfolding extending_never_narrows_def advance_width_append
  using advance_width_nonneg [OF assms] by simp

lemma half_advance_width: "advance_width half_advance s = of_nat (length s) / 2"
  by (induction s) (simp_all add: advance_width_def half_advance_def field_simps)

lemma truncate_loop_half_abcdefgh: "truncate_loop (advance_width half_advance) 3 ''abcdefgh'' = ''abc''"
  by (simp add: truncate_loop.simps half_advance_width)

section \<open>Proofs: price decomposition\<close>

lemma digits_small: "n < 10 \<Longrightarrow> digits n = [digit_char n]"
  by (simp add: digits.simps)

lemma mod1_nonneg: "0 \<le> v \<Longrightarrow> mod1 v = frac v"
  by (simp add: mod1_def frac_def)

lemma toFixed2_split:
  fixes v :: rat
  assumes "0 \<le> v" and "frac v < 199 / 200"
  shows "nat \<lfloor>v * 100 + 1 / 2\<rfloor> = nat \<lfloor>v\<rfloor> * 100 + nat \<lfloor>frac v * 100 + 1 / 2\<rfloor>"
    and "nat \<lfloor>frac v * 100 + 1 / 2\<rfloor> < 100"
proof -
  have fl: "0 \<le> \<lfloor>v\<rfloor>" using assms(1) by simp
  have "v * 100 + 1 / 2 = of_int (\<lfloor>v\<rfloor> * 100) + (frac v * 100 + 1 / 2)"
    by (simp add: frac_def algebra_simps)
  then have "\<lfloor>v * 100 + 1 / 2\<rfloor> = \<lfloor>v\<rfloor> * 100 + \<lfloor>frac v * 100 + 1 / 2\<rfloor>"
    by (metis floor_add_int add.commute)
  moreover have c0: "0 \<le> \<lfloor>frac v * 100 + 1 / 2\<rfloor>"
    using frac_ge_0 [of v] by simp
  ultimately show "nat \<lfloor>v * 100 + 1 / 2\<rfloor> = nat \<lfloor>v\<rfloor> * 100 + nat \<lfloor>frac v * 100 + 1 / 2\<rfloor>"
    using fl by (simp add: nat_add_distrib nat_mult_distrib)
  have "frac v * 100 + 1 / 2 < 100"
    using assms(2) by simp
  then have "\<lfloor>frac v * 100 + 1 / 2\<rfloor> < 100"
    by (simp add: floor_less_iff)
  then show "nat \<lfloor>frac v * 100 + 1 / 2\<rfloor> < 100"
    using c0 by linarith
qed

lemma digit_pair:
  fixes a c :: nat
  assumes "c < 100"
  shows "(a * 100 + c) mod 100 div 10 = c div 10 \<and> (a * 100 + c) mod 10 = c mod 10 \<and>
         (a * 100 + c) div 100 = a"
proof -
  have "(a * 100 + c) mod 100 = c"
    using assms by simp
  moreover have "a * 100 + c = (a * 10) * 10 + c"
    by simp
  then have "(a * 100 + c) mod 10 = c mod 10"
    by (metis mod_mult_self3)
  moreover have "(a * 100 + c) div 100 = a"
    using assms by simp
  ultimately show ?thesis
    by simp
qed

lemma Number_toString_small:
  "0 \<le> i \<Longrightarrow> i < 2 ^ 53 \<Longrightarrow> Number_toString ts i = digits (nat i)"
  by (simp add: Number_toString_def int_toString_def)

lemma Number_toFixed2_small:
  "0 \<le> v \<Longrightarrow> v < 2 ^ 53 \<Longrightarrow> Number_toFixed2 ts v = toFixed2 v"
  by (simp add: Number_toFixed2_def)

lemma floor_below:
  fixes v :: rat
  assumes "v < 2 ^ 53"
  shows "\<lfloor>v\<rfloor> < 2 ^ 53"
proof -
  have "of_int \<lfloor>v\<rfloor> \<le> v"
    by simp
  with assms have "(of_int \<lfloor>v\<rfloor> :: rat) < of_int (2 ^ 53)"
    by simp
  then show ?thesis
    by (simp only: of_int_less_iff)
qed

lemma frac_below:
  fixes v :: rat
  shows "frac v < 2 ^ 53"
proof -
  have "frac v < 1"
    by (rule frac_lt_1)
  then show ?thesis
    by simp
qed

section \<open>Proofs: page layout\<close>

lemma ceil_div_24: "nat \<lceil>(of_nat n :: rat) / 24\<rceil> = (n + 23) div 24"
proof -
  define q where "q = (n + 23) div 24"
  have b: "24 * q \<le> n + 23" "n + 23 < 24 * q + 24"
    unfolding q_def by presburger+
  have "\<lceil>(of_nat n :: rat) / 24\<rceil> = int q"
  proof (rule ceiling_unique)
    have "(of_nat (24 * q) :: rat) < of_nat (n + 24)"
      using b(1) unfolding of_nat_less_iff by linarith
    then show "of_int (int q) - 1 < (of_nat n :: rat) / 24"
      by simp
    have "(of_nat n :: rat) \<le> of_nat (24 * q)"
      using b(2) unfolding of_nat_le_iff by linarith
    then show "(of_nat n :: rat) / 24 \<le> of_int (int q)"
      by simp
  qed
  then show ?thesis by (simp add: q_def)
qed

lemma totalPages_div: "totalPages products = (length products + 23) div 24"
  by (simp add: totalPages_def LABELS_PER_PAGE_def LABELS_PER_ROW_def LABELS_PER_COLUMN_def
      ceil_div_24)

lemma page_products:
  "map pl_product (page_placements products k) = take 24 (drop (k * 24) products)"
proof -
  let ?pp = "slice products (k * 24) (min (k * 24 + 24) (length products))"
  have "map pl_product (page_placements products k) = map (\<lambda>i. ?pp ! i) [0..<length ?pp]"
    by (simp add: page_placements_def Let_def LABELS_PER_PAGE_def LABELS_PER_ROW_def
        LABELS_PER_COLUMN_def comp_def)
  also have "\<dots> = ?pp"
    by (rule map_nth)
  also have "?pp = take 24 (drop (k * 24) products)"
    by (simp add: slice_def min_def)
  finally show ?thesis .
qed

lemma page_length:
  "length (page_placements products k) = min 24 (length products - k * 24)"
  using arg_cong [OF page_products [of products k], of length] by simp

lemma page_cells:
  "cells_of (page_placements products k) =
     map (\<lambda>i. (i div 3, i mod 3)) [0..<length (page_placements products k)]"
  by (simp add: cells_of_def page_placements_def Let_def LABELS_PER_ROW_def comp_def)

lemma concat_pages: "concat (map (\<lambda>k. take 24 (drop (k * 24) xs)) [0..<m]) = take (m * 24) xs"
proof (induction m)
  case 0
  show ?case by simp
next
  case (Suc m)
  have "take (m * 24) xs @ take 24 (drop (m * 24) xs) = take (m * 24 + 24) xs"
    by (simp add: take_add)
  with Suc show ?case
    by (simp add: add.commute)
qed

lemma cell_inj: "inj (\<lambda>i::nat. (i div 3, i mod 3))"
proof (rule injI)
  fix a b :: nat
  assume "(a div 3, a mod 3) = (b div 3, b mod 3)"
  then have e: "a div 3 = b div 3" "a mod 3 = b mod 3"
    by simp_all
  have "a = a div 3 * 3 + a mod 3"
    by simp
  also have "\<dots> = b div 3 * 3 + b mod 3"
    using e by simp
  also have "\<dots> = b"
    by simp
  finally show "a = b" .
qed

lemma cells_distinct: "distinct (map (\<lambda>i::nat. (i div 3, i mod 3)) [0..<n])"
proof -
  have "inj_on (\<lambda>i::nat. (i div 3, i mod 3)) (set [0..<n])"
    by (rule inj_on_subset [OF cell_inj]) simp
  then show ?thesis
    by (simp add: distinct_map)
qed

lemma cells_in_grid:
  assumes "n \<le> 24"
  shows "set (map (\<lambda>i::nat. (i div 3, i mod 3)) [0..<n]) \<subseteq> grid_cells"
proof
  fix rc
  assume "rc \<in> set (map (\<lambda>i::nat. (i div 3, i mod 3)) [0..<n])"
  then obtain i where i: "i < n" "rc = (i div 3, i mod 3)"
    by auto
  from i(1) assms have "i < 24"
    by simp
  then have "i div 3 < 8"
    by simp
  then show "rc \<in> grid_cells"
    using i(2) by (simp add: grid_cells_def LABELS_PER_ROW_def LABELS_PER_COLUMN_def)
qed

lemma card_grid_cells: "card grid_cells = 24"
  by (simp add: grid_cells_def LABELS_PER_ROW_def LABELS_PER_COLUMN_def)

lemma cells_cover:
  assumes "n \<le> 24"
  shows "set (map (\<lambda>i::nat. (i div 3, i mod 3)) [0..<n]) = grid_cells \<longleftrightarrow> n = 24"
proof
  assume eq: "set (map (\<lambda>i::nat. (i div 3, i mod 3)) [0..<n]) = grid_cells"
  have "card (set (map (\<lambda>i::nat. (i div 3, i mod 3)) [0..<n])) = length (map (\<lambda>i::nat. (i div 3, i mod 3)) [0..<n])"
    using cells_distinct [of n] by (rule distinct_card)
  then show "n = 24"
    using eq card_grid_cells by simp
next
  assume n: "n = 24"
  have "grid_cells \<subseteq> set (map (\<lambda>i::nat. (i div 3, i mod 3)) [0..<24])"
  proof
    fix rc assume "rc \<in> grid_cells"
    then obtain r c where rc: "rc = (r, c)" "r < 8" "c < 3"
      by (auto simp: grid_cells_def LABELS_PER_ROW_def LABELS_PER_COLUMN_def)
    then have "r * 3 + c < 24" "(r * 3 + c) div 3 = r" "(r * 3 + c) mod 3 = c"
      by simp_all
    then have "rc = (\<lambda>i::nat. (i div 3, i mod 3)) (r * 3 + c)" "r * 3 + c \<in> set [0..<24]"
      using rc by simp_all
    then show "rc \<in> set (map (\<lambda>i::nat. (i div 3, i mod 3)) [0..<24])"
      unfolding set_map by (rule image_eqI)
  qed
  moreover have "set (map (\<lambda>i::nat. (i div 3, i mod 3)) [0..<24]) \<subseteq> grid_cells"
    by (rule cells_in_grid) simp
  ultimately show "set (map (\<lambda>i::nat. (i div 3, i mod 3)) [0..<n]) = grid_cells"
    using n by blast
qed

lemma layoutPages_nth:
  "k < length (layoutPages products) \<Longrightarrow> layoutPages products ! k = page_placements products k"
  by (simp add: layoutPages_def)

lemma length_layoutPages: "length (layoutPages products) = (length products + 23) div 24"
  by (simp add: layoutPages_def totalPages_div)

lemma page_fill:
  fixes n k :: nat
  assumes "k < (n + 23) div 24"
  shows "min 24 (n - k * 24) =
           (if Suc k < (n + 23) div 24 then 24 else if n mod 24 = 0 then 24 else n mod 24)"
proof -
  define m where "m = (n + 23) div 24"
  define q where "q = n div 24"
  define r where "r = n mod 24"
  have n: "n = 24 * q + r" "r < 24"
    by (simp_all add: q_def r_def)
  have m: "24 * m \<le> n + 23" "n + 23 < 24 * m + 24"
    unfolding m_def by presburger+
  have km: "k < m"
    using assms by (simp add: m_def)
  show ?thesis
  proof (cases "Suc k < m")
    case True
    then have "24 \<le> n - k * 24"
      using m(1) by linarith
    with True show ?thesis
      by (simp add: m_def)
  next
    case False
    with km have mk: "m = Suc k"
      by simp
    show ?thesis
    proof (cases "r = 0")
      case True
      then have "q = Suc k"
        using n m mk by linarith
      then have "n - k * 24 = 24"
        using n True by simp
      with False True show ?thesis
        by (simp add: m_def r_def)
    next
      case r: False
      then have "q = k"
        using n m mk by linarith
      then have "n - k * 24 = r"
        using n by simp
      with False r n(2) show ?thesis
        by (simp add: m_def r_def)
    qed
  qed
qed

section \<open>Proofs: the calls of a label and of a document\<close>

lemmas pdf_calls = emit_def pdf_setDrawColor_def pdf_setLineWidth_def pdf_setFillColor_def
  pdf_setTextColor_def pdf_setFontSize_def pdf_setFont_def pdf_rect_def pdf_text_def
  pdf_addImage_def pdf_getTextWidth_def console_error_def

lemma appendsI:
  "(\<And>doc. current_page (f doc) = current_page doc @ ops \<and>
           finished_pages (f doc) = finished_pages doc \<and> saved (f doc) = saved doc)
   \<Longrightarrow> appends f ops"
  by (simp add: appends_def)

lemma appends_comp:
  assumes "appends f a" and "appends g b"
  shows "appends (\<lambda>doc. g (f doc)) (a @ b)"
  using assms by (simp add: appends_def)

lemma appends_emitted: "appends f ops \<Longrightarrow> emitted f = ops"
  by (simp add: appends_def emitted_def new_jsPDF_def)

lemma placeholder_appends:
  "appends (\<lambda>doc. drawPlaceholderImage B doc x y sz) (placeholder_ops B x y sz)"
  by (rule appendsI) (simp add: drawPlaceholderImage_def placeholder_ops_def Let_def pdf_calls)

lemma border_appends: "appends (\<lambda>doc. draw_border doc x y) (border_ops x y)"
  by (rule appendsI)
    (simp add: draw_border_def border_ops_def Let_def pdf_calls LABEL_WIDTH_def LABEL_HEIGHT_def)

lemma image_appends:
  "appends (\<lambda>doc. draw_product_image B doc img (x + 2) (y + 2) 15) (image_ops B img x y)"
proof (rule appendsI)
  fix doc
  have p: "current_page (drawPlaceholderImage B d (x + 2) (y + 2) 15) =
             current_page d @ placeholder_ops B (x + 2) (y + 2) 15 \<and>
           finished_pages (drawPlaceholderImage B d (x + 2) (y + 2) 15) = finished_pages d \<and>
           saved (drawPlaceholderImage B d (x + 2) (y + 2) 15) = saved d" for d
    using placeholder_appends [of B "x + 2" "y + 2" 15] by (simp add: appends_def)
  show "current_page (draw_product_image B doc img (x + 2) (y + 2) 15) =
          current_page doc @ image_ops B img x y \<and>
        finished_pages (draw_product_image B doc img (x + 2) (y + 2) 15) = finished_pages doc \<and>
        saved (draw_product_image B doc img (x + 2) (y + 2) 15) = saved doc"
    by (simp add: draw_product_image_def image_ops_def p Let_def pdf_addImage_def emit_def
        console_error_def split: option.split canvas_result.split)
qed

lemma designation_appends:
  "appends (\<lambda>doc. draw_designation B doc product (x + 2 + 15 + 2) (y + 2) (66 - 15 - 2))
     (designation_ops B product x y)"
proof (rule appendsI)
  fix doc
  have m: "pdf_getTextWidth B (d\<lparr>fontSize := 10, fontName := ''helvetica'', fontStyle := ''bold'',
             current_page := ops\<rparr>) = getStringWidth B ''helvetica'' ''bold'' 10" for d :: pdf and ops
    by (rule ext) (simp add: pdf_getTextWidth_def)
  show "current_page (draw_designation B doc product (x + 2 + 15 + 2) (y + 2) (66 - 15 - 2)) =
          current_page doc @ designation_ops B product x y \<and>
        finished_pages (draw_designation B doc product (x + 2 + 15 + 2) (y + 2) (66 - 15 - 2)) =
          finished_pages doc \<and>
        saved (draw_designation B doc product (x + 2 + 15 + 2) (y + 2) (66 - 15 - 2)) = saved doc"
    by (simp add: draw_designation_def designation_ops_def Let_def m emit_def
        pdf_setFontSize_def pdf_setFont_def pdf_setTextColor_def pdf_text_def)
qed

lemma reference_appends:
  "appends (\<lambda>doc. draw_reference doc product (x + 2 + 15 + 2) (y + 2)) (reference_ops product x y)"
  by (rule appendsI) (simp add: draw_reference_def reference_ops_def Let_def pdf_calls)

lemma price_appends:
  "appends (\<lambda>doc. draw_price B doc product x (y + 2) 2) (price_ops B product x y)"
  by (rule appendsI)
    (simp add: draw_price_def price_ops_def Let_def pdf_calls LABEL_WIDTH_def)

lemma quantity_appends:
  "appends (\<lambda>doc. draw_quantity B doc product x (y + 2) 2) (quantity_ops B product x y)"
  by (rule appendsI)
    (simp add: draw_quantity_def quantity_ops_def Let_def pdf_calls LABEL_WIDTH_def)

lemma barcode_appends:
  "appends (\<lambda>doc. draw_barcode B doc product x y (x + 2) 66 2) (barcode_ops B product x y)"
  by (rule appendsI)
    (simp add: draw_barcode_def barcode_ops_def Let_def pdf_calls LABEL_WIDTH_def LABEL_HEIGHT_def
      split: option.split)

lemma drawLabelToPDF_blocks:
  "drawLabelToPDF B doc product x y cache =
     draw_barcode B
       (draw_quantity B
         (draw_price B
           (draw_reference
             (draw_designation B
               (draw_product_image B (draw_border doc x y) (cache (reference product)) (x + 2) (y + 2) 15)
               product (x + 2 + 15 + 2) (y + 2) (66 - 15 - 2))
             product (x + 2 + 15 + 2) (y + 2))
           product x (y + 2) 2)
         product x (y + 2) 2)
       product x y (x + 2) 66 2"
  by (simp add: drawLabelToPDF_def Let_def LABEL_WIDTH_def)

lemma label_appends:
  "appends (\<lambda>doc. drawLabelToPDF B doc product x y cache)
     (content_ops B cache product x y @ barcode_ops B product x y)"
proof -
  note c = appends_comp
  have "appends (\<lambda>doc. drawLabelToPDF B doc product x y cache)
     ((((((border_ops x y @ image_ops B (cache (reference product)) x y) @
          designation_ops B product x y) @ reference_ops product x y) @
          price_ops B product x y) @ quantity_ops B product x y) @ barcode_ops B product x y)"
    unfolding drawLabelToPDF_blocks
    by (intro c border_appends image_appends designation_appends reference_appends
        price_appends quantity_appends barcode_appends)
  then show ?thesis
    by (simp add: content_ops_def)
qed

lemma label_ops_blocks:
  "label_ops B cache pl =
     content_ops B cache (pl_product pl) (pl_x pl) (pl_y pl) @
     barcode_ops B (pl_product pl) (pl_x pl) (pl_y pl)"
  unfolding label_ops_def by (rule appends_emitted) (rule label_appends)

lemma label_appends_ops:
  "appends (\<lambda>doc. drawLabelToPDF B doc (pl_product pl) (pl_x pl) (pl_y pl) cache) (label_ops B cache pl)"
  unfolding label_ops_blocks by (rule label_appends)

lemma fold_labels:
  "appends (fold (\<lambda>pl doc. drawLabelToPDF B doc (pl_product pl) (pl_x pl) (pl_y pl) cache) pls)
     (concat (map (label_ops B cache) pls))"
proof (induction pls)
  case Nil
  show ?case by (simp add: appends_def)
next
  case (Cons pl pls)
  have "appends (\<lambda>doc. fold (\<lambda>pl doc. drawLabelToPDF B doc (pl_product pl) (pl_x pl) (pl_y pl) cache) pls
                  (drawLabelToPDF B doc (pl_product pl) (pl_x pl) (pl_y pl) cache))
          (label_ops B cache pl @ concat (map (label_ops B cache) pls))"
    using label_appends_ops Cons.IH by (rule appends_comp)
  then show ?case
    by (simp add: comp_def)
qed

lemma fold_pages:
  "finished_pages (fold (draw_page B cache products) [0..<Suc m] new_jsPDF) = map (page_ops B cache products) [0..<m] \<and>
   current_page (fold (draw_page B cache products) [0..<Suc m] new_jsPDF) = page_ops B cache products m \<and>
   saved (fold (draw_page B cache products) [0..<Suc m] new_jsPDF) = None"
proof (induction m)
  case 0
  have "appends (fold (\<lambda>pl doc. drawLabelToPDF B doc (pl_product pl) (pl_x pl) (pl_y pl) cache)
          (page_placements products 0)) (page_ops B cache products 0)"
    unfolding page_ops_def by (rule fold_labels)
  then show ?case
    by (simp add: draw_page_def appends_def new_jsPDF_def)
next
  case (Suc m)
  let ?d = "fold (draw_page B cache products) [0..<Suc m] new_jsPDF"
  have a: "appends (fold (\<lambda>pl doc. drawLabelToPDF B doc (pl_product pl) (pl_x pl) (pl_y pl) cache)
          (page_placements products (Suc m))) (page_ops B cache products (Suc m))"
    unfolding page_ops_def by (rule fold_labels)
  have step: "fold (draw_page B cache products) [0..<Suc (Suc m)] new_jsPDF =
          fold (\<lambda>pl doc. drawLabelToPDF B doc (pl_product pl) (pl_x pl) (pl_y pl) cache)
            (page_placements products (Suc m)) (pdf_addPage ?d)"
    by (simp add: draw_page_def)
  show ?case
    unfolding step using a Suc.IH by (simp add: appends_def pdf_addPage_def)
qed

lemma generatePDF_fold:
  "generatePDF B products cache =
     pdf_save ''price-labels.pdf'' (fold (draw_page B cache products) [0..<totalPages products] new_jsPDF)"
  by (simp add: generatePDF_def draw_page_def Let_def)

lemma totalPages_zero: "totalPages products = 0 \<longleftrightarrow> products = []"
proof -
  have "(n + 23) div 24 = 0 \<longleftrightarrow> n = 0" for n :: nat
    by arith
  then show ?thesis
    by (simp add: totalPages_div)
qed

lemma generatePDF_pages:
  "all_pages (generatePDF B products cache) =
     (if products = [] then [[]]
      else map (\<lambda>pg. concat (map (label_ops B cache) pg)) (layoutPages products))"
proof (cases "totalPages products")
  case 0
  then show ?thesis
    using totalPages_zero [of products]
    by (simp add: generatePDF_fold all_pages_def pdf_save_def new_jsPDF_def)
next
  case (Suc m)
  then have ne: "products \<noteq> []"
    using totalPages_zero [of products] by simp
  have "all_pages (generatePDF B products cache) = map (page_ops B cache products) [0..<m] @ [page_ops B cache products m]"
    using fold_pages [of B cache products m]
    by (simp add: generatePDF_fold Suc all_pages_def pdf_save_def)
  also have "\<dots> = map (page_ops B cache products) [0..<Suc m]"
    by simp
  also have "\<dots> = map (\<lambda>pg. concat (map (label_ops B cache) pg)) (layoutPages products)"
    by (simp add: layoutPages_def Suc page_ops_def comp_def)
  finally show ?thesis
    using ne by simp
qed

lemma generatePDF_saved: "saved (generatePDF B products cache) = Some ''price-labels.pdf''"
  by (simp add: generatePDF_fold pdf_save_def)

lemmas block_ops = content_ops_def border_ops_def image_ops_def placeholder_ops_def
  designation_ops_def reference_ops_def price_ops_def quantity_ops_def

lemma content_no_symbol: "AddImage imageData ''PNG'' a b c d \<notin> set (content_ops B imageCache product x y)"
  by (simp add: block_ops split: option.split canvas_result.split)

lemma content_no_caption: "Text s a (y + 35) \<notin> set (content_ops B imageCache product x y)"
  by (simp add: block_ops split: option.split canvas_result.split)

lemma label_has_reference:
  "Text (''Ref: '' @ reference (pl_product pl)) (pl_x pl + 19) (pl_y pl + 10)
     \<in> set (label_ops B imageCache pl)"
  by (simp add: label_ops_blocks content_ops_def reference_ops_def)

lemma layout_three:
  "layoutPages three_products = [page_placements three_products 0]"
  by (simp add: layoutPages_def totalPages_div three_products_def)

lemma placements_three:
  "map (\<lambda>pl. (reference (pl_product pl), pl_row pl, pl_col pl)) (page_placements three_products 0) =
     [(''R1'', 0, 0), (''R2'', 0, 1), (''R3'', 0, 2)]"
  by (simp add: page_placements_def slice_def Let_def three_products_def LABELS_PER_PAGE_def
      LABELS_PER_ROW_def LABELS_PER_COLUMN_def upt_rec [of 0])

lemma refuses_cafe: "code128_refuses [CHR ''c'', CHR ''a'', CHR ''f'', CHR 0xE9]"
  by (simp add: code128_refuses_def)

lemma drawLabelToPDF_new:
  "current_page (drawLabelToPDF B new_jsPDF product x y imageCache) =
     content_ops B imageCache product x y @ barcode_ops B product x y"
  using label_appends [of B "product" x y imageCache]
  by (simp add: appends_def new_jsPDF_def)

lemma quantity_ops_empty: "quantity_ops B product x y = [] \<longleftrightarrow> qte product \<le> 1"
  by (simp add: quantity_ops_def)

lemma image_ops_drawn:
  assumes "\<forall>img. productImage = Some img \<longrightarrow> toJPEG B img 15 \<noteq> NoContext"
  shows "(\<exists>imageData. image_ops B productImage x y =
                         [AddImage imageData ''JPEG'' (x + 2) (y + 2) 15 15]) \<or>
         image_ops B productImage x y = placeholder_ops B (x + 2) (y + 2) 15"
proof (cases productImage)
  case None
  then show ?thesis
    by (simp add: image_ops_def)
next
  case (Some img)
  with assms have "toJPEG B img 15 \<noteq> NoContext"
    by simp
  with Some show ?thesis
    by (cases "toJPEG B img 15") (simp_all add: image_ops_def)
qed

lemma demo_price: "Number_toFixed2 whole_digits (25 / 2) = ''12.50''"
  by code_simp

lemma demo_quantity: "Number_toString whole_digits 2 = ''2''"
  by code_simp

lemma demo_fits: "truncate_designation (\<lambda>s. rat_of_nat (length s)) 34 ''Tea'' = ''Tea''"
  by (simp add: truncate_designation_def)

section \<open>Proofs: mapping rows to products\<close>

lemma indexOf_ge: "- 1 \<le> indexOf xs v"
  by (induction xs) (auto simp: Let_def)

lemma indexOf_missing: "indexOf xs v = - 1 \<longleftrightarrow> v \<notin> set xs"
proof (induction xs)
  case Nil
  show ?case by simp
next
  case (Cons x xs)
  have "indexOf xs v + 1 \<noteq> - 1"
    using indexOf_ge [of xs v] by simp
  with Cons show ?case
    by (simp add: Let_def)
qed

lemma missingColumns_eq:
  "map (\<lambda>(key, index). mapping_get mapping key)
     (filter (\<lambda>(key, index). index = - 1) (entries (find_indices headers mapping))) =
   missing_columns headers mapping"
  by (simp add: entries_def find_indices_def mapping_get_def missing_columns_def
      mapped_columns_def indexOf_missing)

lemma mapDataToProducts_rows:
  assumes "2 \<le> length data"
  shows "mapDataToProducts J data mapping imageFiles =
           (if missing_columns (hd data) mapping \<noteq> []
            then Inl (''Missing columns: '' @ join '', '' (missing_columns (hd data) mapping))
            else Inr (List.map_filter (row_to_product J (find_indices (hd data) mapping) imageFiles)
                        (filter row_has_data (drop 1 data))))"
  using assms unfolding mapDataToProducts_def Let_def missingColumns_eq by simp

lemma mapDataToProducts_short:
  "length data < 2 \<Longrightarrow> mapDataToProducts J data mapping imageFiles = Inr []"
  by (simp add: mapDataToProducts_def)

lemma row_to_product_qte:
  assumes "row_to_product J ix imageFiles row = Some p"
  shows "qte p \<noteq> 0 \<and>
         (\<not> truthy (row_at row (i_qte ix)) \<longrightarrow> qte p = 1) \<and>
         (qte p < 1 \<longrightarrow> parseInt (String' J (row_at row (i_qte ix))) = Some (qte p))"
proof -
  define c where "c = row_at row (i_qte ix)"
  define q where "q = (case parseInt (String' J (js_or c (CStr ''1''))) of
                   None \<Rightarrow> 1
                 | Some n \<Rightarrow> if n = 0 then 1 else n)"
  have qp: "qte p = q"
    using assms by (auto simp: row_to_product_def Let_def q_def c_def split: if_splits)
  have one: "parseInt ''1'' = Some 1"
    by code_simp
  have q0: "q \<noteq> 0"
    by (simp add: q_def split: option.split)
  have q1: "q = 1" if "\<not> truthy c"
    using that by (simp add: q_def js_or_def String'_def one)
  have q2: "parseInt (String' J c) = Some q" if "q < 1"
  proof (cases "truthy c")
    case True
    then show ?thesis
      using that by (auto simp: q_def js_or_def split: option.splits if_splits)
  next
    case False
    then show ?thesis
      using q1 that by simp
  qed
  show ?thesis
    using qp q0 q1 q2 by (simp add: c_def)
qed

lemma map_filter_mem:
  "p \<in> set (List.map_filter f xs) \<Longrightarrow> \<exists>x \<in> set xs. f x = Some p"
  by (auto simp: List.map_filter_def)

section \<open>The claims\<close>

text \<open>
  Claim C1, as the code has it. A list of one product gives one page whose only
  placement is in cell (0, 0), so the cells of the page do not cover the grid: cell
  (7, 2) is not among them. And for the empty list the document is saved all the same,
  with the one empty page a new document starts with.
\<close>

theorem layout_cells_counterexample:
  "cells_of (layoutPages [demo_product ''1''] ! 0) = [(0, 0)] \<and>
   (7, 2) \<in> grid_cells \<and>
   (7, 2) \<notin> set (cells_of (layoutPages [demo_product ''1''] ! 0)) \<and>
   all_pages (generatePDF demo_backend [] no_images) = [[]] \<and>
   saved (generatePDF demo_backend [] no_images) = Some ''price-labels.pdf''"
proof -
  have "layoutPages [demo_product ''1''] = [page_placements [demo_product ''1''] 0]"
    by (simp add: layoutPages_def totalPages_div)
  then have "cells_of (layoutPages [demo_product ''1''] ! 0) = [(0, 0)]"
    by (simp add: page_cells page_length)
  moreover have "(7, 2) \<in> grid_cells"
    by (simp add: grid_cells_def LABELS_PER_ROW_def LABELS_PER_COLUMN_def)
  ultimately show ?thesis
    by (simp add: generatePDF_pages generatePDF_saved)
qed

text \<open>
  Claim C1 (amended). For every product list of length \<open>n\<close>, the layout has
  \<open>ceil(n / 24)\<close> pages, none for \<open>n = 0\<close>; every page before the last holds 24
  placements and the last holds \<open>n mod 24\<close> (24 when \<open>n\<close> is a positive multiple of 24);
  within each page the (row, column) pairs of the placements are pairwise distinct and
  lie in the grid of 8 rows and 3 columns, and they cover the grid exactly when the page
  holds 24 placements. The document is saved in every case; it has one page per page of
  the layout, and for \<open>n = 0\<close> the single empty page of a new document.
\<close>

theorem layout_pages:
  "length (layoutPages products) = (length products + 23) div 24 \<and>
   (products = [] \<longrightarrow> layoutPages products = []) \<and>
   (\<forall>k < length (layoutPages products).
      length (layoutPages products ! k) =
        (if Suc k < length (layoutPages products) then 24
         else if length products mod 24 = 0 then 24 else length products mod 24) \<and>
      distinct (cells_of (layoutPages products ! k)) \<and>
      set (cells_of (layoutPages products ! k)) \<subseteq> grid_cells \<and>
      (set (cells_of (layoutPages products ! k)) = grid_cells \<longleftrightarrow>
         length (layoutPages products ! k) = 24)) \<and>
   length (all_pages (generatePDF B products imageCache)) = max 1 (length (layoutPages products)) \<and>
   saved (generatePDF B products imageCache) = Some ''price-labels.pdf''"
proof (intro conjI allI impI)
  show len: "length (layoutPages products) = (length products + 23) div 24"
    by (rule length_layoutPages)
  show "layoutPages products = []" if "products = []"
    using that by (simp add: layoutPages_def totalPages_div)
  show "saved (generatePDF B products imageCache) = Some ''price-labels.pdf''"
    by (rule generatePDF_saved)
  show "length (all_pages (generatePDF B products imageCache)) = max 1 (length (layoutPages products))"
  proof (cases "products = []")
    case True
    then show ?thesis
      by (simp add: generatePDF_pages layoutPages_def totalPages_div)
  next
    case False
    then have "1 \<le> length (layoutPages products)"
      using totalPages_zero [of products] by (simp add: layoutPages_def Suc_le_eq)
    then have "max 1 (length (layoutPages products)) = length (layoutPages products)"
      by (rule max_absorb2)
    with False show ?thesis
      by (simp add: generatePDF_pages)
  qed
next
  fix k
  assume k: "k < length (layoutPages products)"
  let ?pg = "layoutPages products ! k"
  have pg: "?pg = page_placements products k"
    using k by (rule layoutPages_nth)
  have k': "k < (length products + 23) div 24"
    using k by (simp add: length_layoutPages)
  have l: "length ?pg = min 24 (length products - k * 24)"
    by (simp add: pg page_length)
  then have le: "length ?pg \<le> 24"
    by simp
  show "length ?pg =
        (if Suc k < length (layoutPages products) then 24
         else if length products mod 24 = 0 then 24 else length products mod 24)"
    unfolding l length_layoutPages using k' by (rule page_fill)
  have c: "cells_of ?pg = map (\<lambda>i. (i div 3, i mod 3)) [0..<length ?pg]"
    unfolding pg by (rule page_cells)
  show "distinct (cells_of ?pg)"
    unfolding c by (rule cells_distinct)
  show "set (cells_of ?pg) \<subseteq> grid_cells"
    unfolding c using le by (rule cells_in_grid)
  show "set (cells_of ?pg) = grid_cells \<longleftrightarrow> length ?pg = 24"
    unfolding c using le by (rule cells_cover)
qed

theorem layout_pages_witness:
  "length (layoutPages (replicate 25 (demo_product ''1''))) = 2 \<and>
   (0::nat) < 2 \<and> length (layoutPages (replicate 25 (demo_product ''1'')) ! 0) = 24 \<and>
   set (cells_of (layoutPages (replicate 25 (demo_product ''1'')) ! 0)) = grid_cells \<and>
   (1::nat) < 2 \<and> length (layoutPages (replicate 25 (demo_product ''1'')) ! 1) = 1 \<and>
   distinct (cells_of (layoutPages (replicate 25 (demo_product ''1'')) ! 1)) \<and>
   layoutPages ([] :: Product list) = [] \<and>
   length (all_pages (generatePDF demo_backend (replicate 25 (demo_product ''1'')) no_images)) = 2"
proof -
  let ?ps = "replicate 25 (demo_product ''1'')"
  note t = layout_pages [of ?ps demo_backend no_images]
  have n: "length (layoutPages ?ps) = 2"
    using t by simp
  have p0: "length (layoutPages ?ps ! 0) = 24 \<and> set (cells_of (layoutPages ?ps ! 0)) = grid_cells"
    using t n by simp
  have p1: "length (layoutPages ?ps ! 1) = 1 \<and> distinct (cells_of (layoutPages ?ps ! 1))"
    using t n by simp
  have e: "layoutPages ([] :: Product list) = []"
    using layout_pages [of "[] :: Product list" demo_backend no_images] by simp
  have d: "length (all_pages (generatePDF demo_backend ?ps no_images)) = 2"
    using t n by simp
  from n p0 p1 e d show ?thesis
    by simp
qed

text \<open>
  Claim C2, as the code has it. For \<open>12.50\<close> the decimal text is \<open>.50\<close>: \<open>substring(1)\<close>
  removes the leading \<open>0\<close> of \<open>0.50\<close> and keeps the separator, so joining the parts
  with another point gives \<open>12..50\<close>.
\<close>

theorem decompose_fraction_counterexample:
  "fractionPart (decompose whole_digits (25 / 2)) = ''.50'' \<and>
   fractionPart (decompose whole_digits (25 / 2)) \<noteq> ''50'' \<and>
   integerPart (decompose whole_digits (25 / 2)) @ ''.'' @
     fractionPart (decompose whole_digits (25 / 2)) = ''12..50'' \<and>
   Number_toFixed2 whole_digits (25 / 2) = ''12.50''"
  by code_simp

text \<open>
  Claim C2 (amended). For every price that is not negative and lies below \<open>2^53\<close> (the
  range in which the integer part is printed digit by digit), whatever the rendering
  of larger numbers: the integer part is the decimal rendering of \<open>floor(price)\<close>, a
  decimal part is drawn iff the price is not integral, and, when the fractional part of
  the price is below \<open>0.995\<close>, the decimal text is the separator followed by two digits
  and the integer part followed directly by the decimal text is the fixed-2-decimal
  formatting of the price that the compact template uses.
\<close>

theorem decompose_agrees:
  assumes "0 \<le> price" and "price < 2 ^ 53"
  shows "integerPart (decompose ts price) = digits (nat \<lfloor>price\<rfloor>) \<and>
         (hasFraction (decompose ts price) \<longleftrightarrow> price \<notin> \<int>) \<and>
         (frac price < 199 / 200 \<longrightarrow>
            (\<exists>a b. fractionPart (decompose ts price) = [CHR ''.'', a, b]) \<and>
            integerPart (decompose ts price) @ fractionPart (decompose ts price) =
              Number_toFixed2 ts price)"
proof (intro conjI impI)
  have fl: "0 \<le> \<lfloor>price\<rfloor>" "\<lfloor>price\<rfloor> < 2 ^ 53"
    using assms floor_below [of price] by simp_all
  show ip: "integerPart (decompose ts price) = digits (nat \<lfloor>price\<rfloor>)"
    using fl by (simp add: integerPart_def decompose_def Number_toString_small)
  show "hasFraction (decompose ts price) \<longleftrightarrow> price \<notin> \<int>"
    using assms by (simp add: hasFraction_def decompose_def mod1_nonneg frac_eq_0_iff)
  have dec: "fractionPart (decompose ts price) = drop 1 (toFixed2 (frac price))"
    using assms(1) frac_ge_0 [of price] frac_below [of price]
    by (simp add: fractionPart_def decompose_def mod1_nonneg Number_toFixed2_small)
  assume small: "frac price < 199 / 200"
  let ?c = "nat \<lfloor>frac price * 100 + 1 / 2\<rfloor>"
  have c: "?c < 100"
    using toFixed2_split(2) [OF assms(1) small] .
  have f0: "0 \<le> frac price" "\<not> frac price < 0"
    using frac_ge_0 [of price] by (simp_all add: not_less)
  have "toFixed2 (frac price) =
          digits (?c div 100) @ ''.'' @ [digit_char (?c mod 100 div 10), digit_char (?c mod 10)]"
    using f0 by (simp add: toFixed2_def Let_def)
  also have "?c div 100 = 0"
    using c by simp
  finally have fp: "fractionPart (decompose ts price) =
                      ''.'' @ [digit_char (?c div 10), digit_char (?c mod 10)]"
    using c by (simp add: dec digits_small digit_char_def)
  then show "\<exists>a b. fractionPart (decompose ts price) = [CHR ''.'', a, b]"
    by simp
  have n: "nat \<lfloor>\<bar>price\<bar> * 100 + 1 / 2\<rfloor> = nat \<lfloor>price\<rfloor> * 100 + ?c"
    using toFixed2_split(1) [OF assms(1) small] assms(1) by simp
  have "toFixed2 price =
          digits (nat \<lfloor>price\<rfloor>) @ ''.'' @ [digit_char (?c div 10), digit_char (?c mod 10)]"
    using assms(1) digit_pair [OF c, of "nat \<lfloor>price\<rfloor>"]
    unfolding toFixed2_def Let_def n by (simp add: not_less)
  with fp ip show "integerPart (decompose ts price) @ fractionPart (decompose ts price) =
                     Number_toFixed2 ts price"
    using assms by (simp add: Number_toFixed2_small)
qed

theorem decompose_agrees_witness:
  "(0::rat) \<le> 25 / 2 \<and> (25 / 2 :: rat) < 2 ^ 53 \<and>
   integerPart (decompose whole_digits (25 / 2)) = ''12'' \<and>
   hasFraction (decompose whole_digits (25 / 2)) \<and>
   frac (25 / 2 :: rat) < 199 / 200 \<and> fractionPart (decompose whole_digits (25 / 2)) = ''.50'' \<and>
   integerPart (decompose whole_digits (25 / 2)) @ fractionPart (decompose whole_digits (25 / 2)) =
     Number_toFixed2 whole_digits (25 / 2)"
proof -
  have h: "(0::rat) \<le> 25 / 2"
    by simp
  have b: "(25 / 2 :: rat) < 2 ^ 53"
    by simp
  have fr: "frac (25 / 2 :: rat) < 199 / 200"
    by code_simp
  have d: "decompose whole_digits (25 / 2) = (''12'', True, ''.50'')"
    by code_simp
  have "integerPart (decompose whole_digits (25 / 2)) @ fractionPart (decompose whole_digits (25 / 2)) =
          Number_toFixed2 whole_digits (25 / 2)"
    using decompose_agrees [OF h b, of whole_digits] fr by blast
  with h b fr d show ?thesis
    by (simp add: integerPart_def fractionPart_def hasFraction_def)
qed

text \<open>
  Claim C3. For every product list, the products of the placements that \<open>generatePDF\<close>
  visits, page by page and within a page in placement order, are exactly the input list:
  nothing is skipped, duplicated or reordered. The document consists of the labels of
  these placements in this order, one page of the document for each page of placements
  (and one empty page for the empty list), and the calls of every label include the
  reference text of its own product at its own cell.
\<close>

theorem generatePDF_preserves_order:
  "concat (map (map pl_product) (layoutPages products)) = products \<and>
   all_pages (generatePDF B products imageCache) =
     (if products = [] then [[]]
      else map (\<lambda>pg. concat (map (label_ops B imageCache) pg)) (layoutPages products)) \<and>
   (\<forall>pl. Text (''Ref: '' @ reference (pl_product pl)) (pl_x pl + 19) (pl_y pl + 10)
            \<in> set (label_ops B imageCache pl))"
proof (intro conjI allI)
  have "concat (map (map pl_product) (layoutPages products)) =
          concat (map (\<lambda>k. take 24 (drop (k * 24) products)) [0..<totalPages products])"
    by (simp add: layoutPages_def comp_def page_products)
  also have "\<dots> = take (totalPages products * 24) products"
    by (rule concat_pages)
  also have "\<dots> = products"
    by (simp add: totalPages_div)
  finally show "concat (map (map pl_product) (layoutPages products)) = products" .
  show "all_pages (generatePDF B products imageCache) =
     (if products = [] then [[]]
      else map (\<lambda>pg. concat (map (label_ops B imageCache) pg)) (layoutPages products))"
    by (rule generatePDF_pages)
  show "Text (''Ref: '' @ reference (pl_product pl)) (pl_x pl + 19) (pl_y pl + 10)
            \<in> set (label_ops B imageCache pl)" for pl
    by (rule label_has_reference)
qed

theorem generatePDF_preserves_order_witness:
  "map (\<lambda>pl. (reference (pl_product pl), pl_row pl, pl_col pl)) (concat (layoutPages three_products)) =
     [(''R1'', 0, 0), (''R2'', 0, 1), (''R3'', 0, 2)] \<and>
   concat (map (map pl_product) (layoutPages three_products)) = three_products \<and>
   all_pages (generatePDF demo_backend three_products no_images) =
     [concat (map (label_ops demo_backend no_images) (page_placements three_products 0))]"
proof -
  have ne: "three_products \<noteq> []"
    by (simp add: three_products_def)
  show ?thesis
    using generatePDF_preserves_order [of three_products demo_backend no_images] ne
    by (simp add: layout_three placements_three)
qed

text \<open>
  Claim C5. For every text, limit and measurement function: a text that measures at most
  the limit is returned unchanged; otherwise the result is a prefix \<open>p\<close> of the text with
  the ellipsis appended, where no prefix of the text that fits together with the ellipsis
  is longer than \<open>p\<close> and a non-empty \<open>p\<close> itself fits together with the ellipsis; and
  when no non-empty prefix fits, the result is the ellipsis marker alone. (The limit need
  not be positive for this.)
\<close>

theorem fit_longest_prefix:
  fixes getTextWidth :: "string \<Rightarrow> 'w::linorder"
  shows "(getTextWidth s \<le> maxWidth \<longrightarrow>
            truncate_designation getTextWidth maxWidth s = s) \<and>
         (\<not> getTextWidth s \<le> maxWidth \<longrightarrow>
            (\<exists>p. prefix p s \<and>
                 truncate_designation getTextWidth maxWidth s = p @ ''...'' \<and>
                 (p \<noteq> [] \<longrightarrow> getTextWidth (p @ ''...'') \<le> maxWidth) \<and>
                 (\<forall>q. prefix q s \<and> getTextWidth (q @ ''...'') \<le> maxWidth
                        \<longrightarrow> length q \<le> length p)) \<and>
            ((\<forall>q. prefix q s \<and> q \<noteq> [] \<longrightarrow> \<not> getTextWidth (q @ ''...'') \<le> maxWidth)
               \<longrightarrow> truncate_designation getTextWidth maxWidth s = ''...''))"
proof (intro conjI impI)
  assume "getTextWidth s \<le> maxWidth"
  then show "truncate_designation getTextWidth maxWidth s = s"
    by (rule truncate_designation_fits)
next
  assume wide: "\<not> getTextWidth s \<le> maxWidth"
  let ?p = "truncate_loop getTextWidth maxWidth s"
  have res: "truncate_designation getTextWidth maxWidth s = ?p @ ''...''"
    using wide by (rule truncate_designation_wide)
  have "prefix ?p s"
    by (rule truncate_loop_prefix)
  moreover have "?p \<noteq> [] \<longrightarrow> getTextWidth (?p @ ''...'') \<le> maxWidth"
    using truncate_loop_stops [of getTextWidth maxWidth s] by blast
  moreover have "\<forall>q. prefix q s \<and> getTextWidth (q @ ''...'') \<le> maxWidth
                    \<longrightarrow> length q \<le> length ?p"
    using truncate_loop_longest by blast
  ultimately show "\<exists>p. prefix p s \<and>
       truncate_designation getTextWidth maxWidth s = p @ ''...'' \<and>
       (p \<noteq> [] \<longrightarrow> getTextWidth (p @ ''...'') \<le> maxWidth) \<and>
       (\<forall>q. prefix q s \<and> getTextWidth (q @ ''...'') \<le> maxWidth
              \<longrightarrow> length q \<le> length p)"
    using res by blast
next
  assume wide: "\<not> getTextWidth s \<le> maxWidth"
  assume none: "\<forall>q. prefix q s \<and> q \<noteq> [] \<longrightarrow> \<not> getTextWidth (q @ ''...'') \<le> maxWidth"
  let ?p = "truncate_loop getTextWidth maxWidth s"
  have "?p = []"
    using truncate_loop_stops [of getTextWidth maxWidth s]
      truncate_loop_prefix [of getTextWidth maxWidth s] none by blast
  then show "truncate_designation getTextWidth maxWidth s = ''...''"
    using wide by (simp add: truncate_designation_wide)
qed

theorem fit_longest_prefix_witness:
  "\<not> unit_width ''abcdef'' \<le> 5 \<and>
   truncate_designation unit_width 5 ''abcdef'' = ''ab...'' \<and>
   unit_width ''ab...'' \<le> 5 \<and> \<not> unit_width ''abc...'' \<le> 5 \<and>
   unit_width ''abc'' \<le> 5 \<and> truncate_designation unit_width 5 ''abc'' = ''abc''"
  using fit_longest_prefix [of unit_width "''abc''" 5]
    fit_longest_prefix [of unit_width "''abcdef''" 5]
  by (simp add: truncate_designation_def truncate_loop_unit_abcdef unit_width_def)

text \<open>
  Claim C6. The measurement is the backend's (\<open>pdf.getTextWidth\<close>, \<open>ctx.measureText\<close>);
  extending a text never makes it narrower under it, as under every measurement that
  adds up advances that are not negative. For every such measurement, every text and
  every width \<open>w\<close>, fitting the displayed string of a fit again gives the same result,
  and every text whose measured width is at most \<open>w\<close> is returned unchanged.
\<close>

theorem fit_idempotent:
  fixes getTextWidth :: "string \<Rightarrow> 'w::linorder"
  assumes mono: "extending_never_narrows getTextWidth"
  shows "fit getTextWidth w (fst (fit getTextWidth w s)) = fit getTextWidth w s \<and>
         (getTextWidth s \<le> w \<longrightarrow> fst (fit getTextWidth w s) = s)"
proof -
  let ?r = "truncate_designation getTextWidth w s"
  have "truncate_designation getTextWidth w ?r = ?r"
  proof (cases "getTextWidth s \<le> w")
    case True
    then show ?thesis
      by (simp add: truncate_designation_fits)
  next
    case False
    let ?p = "truncate_loop getTextWidth w s"
    have r: "?r = ?p @ ''...''"
      using False by (rule truncate_designation_wide)
    show ?thesis
    proof (cases "getTextWidth ?r \<le> w")
      case True
      then show ?thesis
        by (rule truncate_designation_fits)
    next
      case wide: False
      then have "?p = []"
        using truncate_loop_stops [of getTextWidth w s] r by auto
      then have r': "?r = ''...''"
        using r by simp
      then have "truncate_loop getTextWidth w ?r = []"
        using truncate_loop_ellipsis [OF mono] wide by simp
      then show ?thesis
        using wide r' truncate_designation_wide [of getTextWidth "''...''" w] by simp
    qed
  qed
  then show ?thesis
    by (simp add: fit_def Let_def truncate_designation_fits)
qed

theorem fit_idempotent_witness:
  "extending_never_narrows (advance_width half_advance) \<and>
   fit (advance_width half_advance) 3 ''abcdefgh'' = (''abc...'', 3) \<and>
   fit (advance_width half_advance) 3 ''abc...'' = (''abc...'', 3) \<and>
   advance_width half_advance ''abcd'' \<le> 3 \<and>
   fst (fit (advance_width half_advance) 3 ''abcd'') = ''abcd''"
proof -
  have nn: "\<forall>c. 0 \<le> half_advance c"
    by (simp add: half_advance_def)
  have m: "extending_never_narrows (advance_width half_advance)"
    using nn by (rule advance_width_extending)
  have f: "fit (advance_width half_advance) 3 ''abcdefgh'' = (''abc...'', 3)"
    by (simp add: fit_def truncate_designation_def truncate_loop_half_abcdefgh half_advance_width)
  have s: "advance_width half_advance ''abcd'' \<le> 3"
    by (simp add: half_advance_width)
  show ?thesis
    using fit_idempotent [OF m, of 3 "''abcdefgh''"] fit_idempotent [OF m, of 3 "''abcd''"] m f s
    by simp
qed




text \<open>
  Claim C8, as the code has it. For a product with quantity 1 whose barcode text CODE128
  cannot encode, the label has the border, the placeholder, the designation, the
  reference and the price, and no quantity caption: the caption is drawn for a quantity
  above 1 only. And when the product has an image but the canvas gives no 2D context,
  neither the image nor the placeholder is drawn: the branch has no alternative, and the
  call after the border is the first of the designation.
\<close>

theorem barcode_failure_counterexample:
  "JsBarcode demo_backend (codebar single_product) = None \<and>
   current_page (drawLabelToPDF demo_backend new_jsPDF single_product 0 (9 / 2) no_images) =
     [SetDrawColor 229 231 235, SetLineWidth (1 / 10), Rect 0 (9 / 2) 70 36 None,
      SetFillColor 243 244 246, Rect 2 (13 / 2) 15 15 (Some ''F''), SetFontSize 6,
      SetFont ''helvetica'' ''normal'', SetTextColor 156 163 175, Text ''No Image'' (11 / 2) 14,
      SetFontSize 10, SetFont ''helvetica'' ''bold'', SetTextColor 17 24 39,
      Text ''Tea'' 19 (21 / 2),
      SetFontSize 7, SetFont ''helvetica'' ''normal'', SetTextColor 107 114 128,
      Text ''Ref: R1'' 19 (29 / 2),
      SetFontSize 12, SetFont ''helvetica'' ''bold'', SetTextColor 220 38 38,
      Text (''12.50 '' @ euro) 59 (21 / 2)] \<and>
   JsBarcode no_context_backend (codebar single_product) = None \<and>
   current_page (drawLabelToPDF no_context_backend new_jsPDF single_product 0 (9 / 2) one_image) =
     [SetDrawColor 229 231 235, SetLineWidth (1 / 10), Rect 0 (9 / 2) 70 36 None,
      SetFontSize 10, SetFont ''helvetica'' ''bold'', SetTextColor 17 24 39,
      Text ''Tea'' 19 (21 / 2),
      SetFontSize 7, SetFont ''helvetica'' ''normal'', SetTextColor 107 114 128,
      Text ''Ref: R1'' 19 (29 / 2),
      SetFontSize 12, SetFont ''helvetica'' ''bold'', SetTextColor 220 38 38,
      Text (''12.50 '' @ euro) 59 (21 / 2)]"
  by (simp add: drawLabelToPDF_new block_ops barcode_ops_def demo_backend_def no_context_backend_def
      single_product_def no_images_def one_image_def refuses_cafe demo_price demo_fits euro_def)

text \<open>
  Claim C8 (amended). For every product for which the barcode generator throws (as it
  does for an empty text and for a text that CODE128 cannot encode), drawing the label
  adds to the current page exactly the calls of the border, the image block, the
  designation, the reference, the price and the quantity block, in this order and as
  they are for any other product, and adds no page. The quantity block is empty exactly
  for a quantity of at most 1. Unless the product has an image for which the canvas
  gives no 2D context, the image block is the image or the placeholder. No PNG image
  (the barcode symbol) and no text on the caption line \<open>y + 35\<close> is among the calls. The other labels are not affected: the pages
  of the document are the pages of the layout, each page the calls of its labels one
  after the other, and the calls of a label depend on its own product and cell only (its
  content followed by its barcode block).
\<close>

theorem barcode_failure_isolated:
  assumes "JsBarcode B (codebar product) = None"
  shows "current_page (drawLabelToPDF B doc product x y imageCache) =
           current_page doc @ border_ops x y @ image_ops B (imageCache (reference product)) x y @
           designation_ops B product x y @ reference_ops product x y @
           price_ops B product x y @ quantity_ops B product x y \<and>
         finished_pages (drawLabelToPDF B doc product x y imageCache) = finished_pages doc \<and>
         (quantity_ops B product x y = [] \<longleftrightarrow> qte product \<le> 1) \<and>
         ((\<forall>img. imageCache (reference product) = Some img \<longrightarrow> toJPEG B img 15 \<noteq> NoContext) \<longrightarrow>
            (\<exists>imageData. image_ops B (imageCache (reference product)) x y =
                            [AddImage imageData ''JPEG'' (x + 2) (y + 2) 15 15]) \<or>
            image_ops B (imageCache (reference product)) x y = placeholder_ops B (x + 2) (y + 2) 15) \<and>
         (\<forall>imageData a b c d.
            AddImage imageData ''PNG'' a b c d \<notin> set (content_ops B imageCache product x y)) \<and>
         (\<forall>s a. Text s a (y + 35) \<notin> set (content_ops B imageCache product x y)) \<and>
         all_pages (generatePDF B products imageCache) =
           (if products = [] then [[]]
            else map (\<lambda>pg. concat (map (label_ops B imageCache) pg)) (layoutPages products)) \<and>
         (\<forall>pl. label_ops B imageCache pl =
            content_ops B imageCache (pl_product pl) (pl_x pl) (pl_y pl) @
            barcode_ops B (pl_product pl) (pl_x pl) (pl_y pl))"
proof (intro conjI allI impI)
  have "barcode_ops B product x y = []"
    using assms by (simp add: barcode_ops_def)
  then have a: "appends (\<lambda>doc. drawLabelToPDF B doc product x y imageCache)
               (content_ops B imageCache product x y)"
    using label_appends [of B "product" x y imageCache] by simp
  show "current_page (drawLabelToPDF B doc product x y imageCache) =
           current_page doc @ border_ops x y @ image_ops B (imageCache (reference product)) x y @
           designation_ops B product x y @ reference_ops product x y @
           price_ops B product x y @ quantity_ops B product x y"
    using a by (simp add: appends_def content_ops_def)
  show "finished_pages (drawLabelToPDF B doc product x y imageCache) = finished_pages doc"
    using a by (simp add: appends_def)
  show "quantity_ops B product x y = [] \<longleftrightarrow> qte product \<le> 1"
    by (rule quantity_ops_empty)
  show "(\<exists>imageData. image_ops B (imageCache (reference product)) x y =
                            [AddImage imageData ''JPEG'' (x + 2) (y + 2) 15 15]) \<or>
        image_ops B (imageCache (reference product)) x y = placeholder_ops B (x + 2) (y + 2) 15"
    if "\<forall>img. imageCache (reference product) = Some img \<longrightarrow> toJPEG B img 15 \<noteq> NoContext"
    using that by (rule image_ops_drawn)
  show "AddImage imageData ''PNG'' a b c d \<notin> set (content_ops B imageCache product x y)"
    for imageData a b c d
    by (rule content_no_symbol)
  show "Text s a (y + 35) \<notin> set (content_ops B imageCache product x y)" for s a
    by (rule content_no_caption)
  show "all_pages (generatePDF B products imageCache) =
           (if products = [] then [[]]
            else map (\<lambda>pg. concat (map (label_ops B imageCache) pg)) (layoutPages products))"
    by (rule generatePDF_pages)
  show "label_ops B imageCache pl =
            content_ops B imageCache (pl_product pl) (pl_x pl) (pl_y pl) @
            barcode_ops B (pl_product pl) (pl_x pl) (pl_y pl)" for pl
    by (rule label_ops_blocks)
qed

theorem barcode_failure_isolated_witness:
  "JsBarcode demo_backend (codebar (demo_product (''caf'' @ [CHR 0xE9]))) = None \<and>
   current_page (drawLabelToPDF demo_backend new_jsPDF (demo_product (''caf'' @ [CHR 0xE9]))
                   0 (9 / 2) one_image) =
     [SetDrawColor 229 231 235, SetLineWidth (1 / 10), Rect 0 (9 / 2) 70 36 None,
      AddImage ''jpeg:blob:r1'' ''JPEG'' 2 (13 / 2) 15 15,
      SetFontSize 10, SetFont ''helvetica'' ''bold'', SetTextColor 17 24 39,
      Text ''Tea'' 19 (21 / 2),
      SetFontSize 7, SetFont ''helvetica'' ''normal'', SetTextColor 107 114 128,
      Text ''Ref: R1'' 19 (29 / 2),
      SetFontSize 12, SetFont ''helvetica'' ''bold'', SetTextColor 220 38 38,
      Text (''12.50 '' @ euro) 59 (21 / 2),
      SetFontSize 7, SetFont ''helvetica'' ''normal'', SetTextColor 107 114 128,
      Text (''Qt'' @ [CHR 0xE9] @ '': 2'') 62 (29 / 2)] \<and>
   toJPEG demo_backend (HTMLImageElement ''blob:r1'' 40 30) 15 \<noteq> NoContext \<and>
   image_ops demo_backend (one_image (reference (demo_product (''caf'' @ [CHR 0xE9])))) 0 (9 / 2) =
     [AddImage ''jpeg:blob:r1'' ''JPEG'' 2 (13 / 2) 15 15]"
proof -
  let ?p = "demo_product (''caf'' @ [CHR 0xE9])"
  have h: "JsBarcode demo_backend (codebar ?p) = None"
    by (simp add: demo_backend_def demo_product_def refuses_cafe)
  have c: "toJPEG demo_backend (HTMLImageElement ''blob:r1'' 40 30) 15 \<noteq> NoContext"
    by (simp add: demo_backend_def)
  have i: "image_ops demo_backend (one_image (reference ?p)) 0 (9 / 2) =
             [AddImage ''jpeg:blob:r1'' ''JPEG'' 2 (13 / 2) 15 15]"
    by (simp add: image_ops_def demo_backend_def demo_product_def one_image_def)
  have "current_page (drawLabelToPDF demo_backend new_jsPDF ?p 0 (9 / 2) one_image) =
          current_page new_jsPDF @ border_ops 0 (9 / 2) @
          image_ops demo_backend (one_image (reference ?p)) 0 (9 / 2) @
          designation_ops demo_backend ?p 0 (9 / 2) @ reference_ops ?p 0 (9 / 2) @
          price_ops demo_backend ?p 0 (9 / 2) @ quantity_ops demo_backend ?p 0 (9 / 2)"
    using barcode_failure_isolated [OF h, of new_jsPDF 0 "9 / 2" one_image] by (rule conjunct1)
  then have "current_page (drawLabelToPDF demo_backend new_jsPDF ?p 0 (9 / 2) one_image) =
     [SetDrawColor 229 231 235, SetLineWidth (1 / 10), Rect 0 (9 / 2) 70 36 None,
      AddImage ''jpeg:blob:r1'' ''JPEG'' 2 (13 / 2) 15 15,
      SetFontSize 10, SetFont ''helvetica'' ''bold'', SetTextColor 17 24 39,
      Text ''Tea'' 19 (21 / 2),
      SetFontSize 7, SetFont ''helvetica'' ''normal'', SetTextColor 107 114 128,
      Text ''Ref: R1'' 19 (29 / 2),
      SetFontSize 12, SetFont ''helvetica'' ''bold'', SetTextColor 220 38 38,
      Text (''12.50 '' @ euro) 59 (21 / 2),
      SetFontSize 7, SetFont ''helvetica'' ''normal'', SetTextColor 107 114 128,
      Text (''Qt'' @ [CHR 0xE9] @ '': 2'') 62 (29 / 2)]"
    unfolding i
    by (simp add: new_jsPDF_def border_ops_def designation_ops_def reference_ops_def
        price_ops_def quantity_ops_def demo_backend_def demo_product_def
        demo_price demo_quantity demo_fits euro_def)
  with h c i show ?thesis
    by (intro conjI)
qed

text \<open>
  Claim C9, as the code has it. A row whose quantity cell holds the text \<open>-5\<close> gives a
  product with quantity \<open>-5\<close>: \<open>parseInt\<close> reads the sign, and only \<open>NaN\<close> and 0 are
  replaced by 1.
\<close>

theorem negative_quantity_counterexample:
  "mapDataToProducts demo_builtins sheet_negative_quantity mapping_A_to_E no_image_files =
     Inr [\<lparr>codebar = ''4006381333931'', qte = - 5, prix = 3, designation = ''Pen'',
           reference = ''R7'', image = None\<rparr>] \<and>
   \<not> 1 \<le> qte \<lparr>codebar = ''4006381333931'', qte = - 5, prix = 3, designation = ''Pen'',
                 reference = ''R7'', image = None\<rparr>"
  by code_simp

text \<open>
  Claim C9 (amended). Every product that the data-mapping step returns comes from a data
  row of the sheet and has an integer quantity that is not 0; the quantity is 1 when the
  quantity cell of the row is absent or falsy (missing, \<open>null\<close>, empty, 0, \<open>false\<close>), and
  it is below 1 only when the text of the cell parses (\<open>parseInt\<close>) to a negative
  integer, which is then the quantity.
\<close>

theorem quantity_of_products:
  assumes "mapDataToProducts J data mapping imageFiles = Inr products" and "p \<in> set products"
  shows "qte p \<noteq> 0 \<and>
         (\<exists>row \<in> set (drop 1 data).
            row_to_product J (find_indices (hd data) mapping) imageFiles row = Some p \<and>
            (\<not> truthy (row_at row (i_qte (find_indices (hd data) mapping))) \<longrightarrow> qte p = 1) \<and>
            (qte p < 1 \<longrightarrow>
               parseInt (String' J (row_at row (i_qte (find_indices (hd data) mapping)))) =
                 Some (qte p)))"
proof -
  have len: "2 \<le> length data"
  proof (rule ccontr)
    assume "\<not> 2 \<le> length data"
    then have "mapDataToProducts J data mapping imageFiles = Inr []"
      by (simp add: mapDataToProducts_short)
    with assms show False
      by simp
  qed
  let ?ix = "find_indices (hd data) mapping"
  have nm: "missing_columns (hd data) mapping = []"
  proof (rule ccontr)
    assume "missing_columns (hd data) mapping \<noteq> []"
    then have "isl (mapDataToProducts J data mapping imageFiles)"
      by (simp add: mapDataToProducts_rows [OF len])
    with assms(1) show False
      by simp
  qed
  have "mapDataToProducts J data mapping imageFiles =
          Inr (List.map_filter (row_to_product J ?ix imageFiles) (filter row_has_data (drop 1 data)))"
    using nm by (simp add: mapDataToProducts_rows [OF len])
  with assms(1) have
    "products = List.map_filter (row_to_product J ?ix imageFiles) (filter row_has_data (drop 1 data))"
    by simp
  with assms(2) have "\<exists>row \<in> set (filter row_has_data (drop 1 data)).
      row_to_product J ?ix imageFiles row = Some p"
    by (simp only: map_filter_mem)
  then obtain row where row: "row \<in> set (filter row_has_data (drop 1 data))"
      "row_to_product J ?ix imageFiles row = Some p"
    by (rule bexE)
  from row(1) have mem: "row \<in> set (drop 1 data)"
    by simp
  note q = row_to_product_qte [OF row(2)]
  show ?thesis
  proof (rule conjI)
    show "qte p \<noteq> 0"
      using q by (rule conjunct1)
    show "\<exists>row \<in> set (drop 1 data).
            row_to_product J ?ix imageFiles row = Some p \<and>
            (\<not> truthy (row_at row (i_qte ?ix)) \<longrightarrow> qte p = 1) \<and>
            (qte p < 1 \<longrightarrow> parseInt (String' J (row_at row (i_qte ?ix))) = Some (qte p))"
      using mem
    proof (rule bexI [rotated])
      show "row_to_product J ?ix imageFiles row = Some p \<and>
            (\<not> truthy (row_at row (i_qte ?ix)) \<longrightarrow> qte p = 1) \<and>
            (qte p < 1 \<longrightarrow> parseInt (String' J (row_at row (i_qte ?ix))) = Some (qte p))"
        using row(2) q by simp
    qed
  qed
qed

theorem quantity_of_products_witness:
  "mapDataToProducts demo_builtins sheet_no_quantity mapping_A_to_E no_image_files =
     Inr [\<lparr>codebar = ''4006381333931'', qte = 1, prix = 3, designation = ''Pen'',
           reference = ''R7'', image = None\<rparr>] \<and>
   qte \<lparr>codebar = ''4006381333931'', qte = 1, prix = 3, designation = ''Pen'',
        reference = ''R7'', image = None\<rparr> \<noteq> 0"
proof -
  let ?p = "\<lparr>codebar = ''4006381333931'', qte = 1, prix = 3, designation = ''Pen'',
             reference = ''R7'', image = None\<rparr>"
  have h1: "mapDataToProducts demo_builtins sheet_no_quantity mapping_A_to_E no_image_files = Inr [?p]"
    by code_simp
  have h2: "?p \<in> set [?p]"
    by simp
  have "qte ?p \<noteq> 0"
    using quantity_of_products [OF h1 h2] by (rule conjunct1)
  with h1 show ?thesis
    by (rule conjI)
qed

text \<open>
  Claim C10. For every column mapping, also one whose columns are not among the headers,
  the product-mapping step applied to a sheet with fewer than two rows (the header row
  alone, or no row) returns the empty product list and reports no error.
\<close>

theorem no_data_rows_no_error:
  assumes "length data < 2"
  shows "mapDataToProducts J data mapping imageFiles = Inr []"
  using assms by (rule mapDataToProducts_short)

theorem no_data_rows_no_error_witness:
  "length [[CStr ''A'', CStr ''B'']] < (2::nat) \<and>
   missing_columns [CStr ''A'', CStr ''B''] mapping_A_to_E \<noteq> [] \<and>
   mapDataToProducts demo_builtins [[CStr ''A'', CStr ''B'']] mapping_A_to_E no_image_files = Inr [] \<and>
   mapDataToProducts demo_builtins [] mapping_A_to_E no_image_files = Inr []"
proof -
  have h: "length [[CStr ''A'', CStr ''B'']] < (2::nat)"
    by simp
  have h0: "length ([] :: cell list list) < 2"
    by simp
  have m: "missing_columns [CStr ''A'', CStr ''B''] mapping_A_to_E \<noteq> []"
    by (simp add: missing_columns_def mapped_columns_def mapping_A_to_E_def)
  show ?thesis
    using no_data_rows_no_error [OF h, of demo_builtins mapping_A_to_E no_image_files]
      no_data_rows_no_error [OF h0, of demo_builtins mapping_A_to_E no_image_files] h m
    by simp
qed

end
